theory Spec2Isabelle
  imports Complex_Main "HOL-Library.Word"
begin

section \<open>JSON values and the JavaScript operations the share handlers use\<close>

text \<open>
  The compact share objects are plain JavaScript objects of strings, numbers, booleans and
  arrays. They are modelled by the values \<open>JSON.stringify\<close> accepts and \<open>JSON.parse\<close>
  returns. An object is the list of its own properties in insertion order; a property
  whose value would be \<open>undefined\<close> is left out, as \<open>JSON.stringify\<close> leaves it out.
  Numbers are the finite numbers of JSON, taken as reals.
\<close>

datatype json =
    JNull
  | JBool bool
  | JNum real
  | JStr string
  | JArr "json list"
  | JObj "(string \<times> json) list"

text \<open>
  The outcome of reading from a parsed payload: \<open>Raise\<close> is a thrown \<open>TypeError\<close>;
  \<open>Foreign\<close> says that the payload holds, at a place whose value the handler stores, a
  value of another type than the TypeScript interface declares (\<open>JSON.parse\<close> is
  unchecked); \<open>Val\<close> is a value of the declared type. A property that is absent reads as
  \<open>None\<close> (\<open>undefined\<close>).
\<close>

datatype 'a rd = Raise | Foreign | Val 'a

fun rd_bind :: "'a rd \<Rightarrow> ('a \<Rightarrow> 'b rd) \<Rightarrow> 'b rd" where
  "rd_bind Raise f = Raise"
| "rd_bind Foreign f = Foreign"
| "rd_bind (Val x) f = f x"

text \<open>
  \<open>x.k\<close> for a key \<open>k\<close> of the compact schema: reading a property of \<open>null\<close> throws; an
  object gives its own property; strings, numbers, booleans and arrays have no property
  under any key of the schema.
\<close>

fun getProp :: "json \<Rightarrow> string \<Rightarrow> json option rd" where
  "getProp JNull k = Raise"
| "getProp (JObj kvs) k = Val (map_of kvs k)"
| "getProp (JBool b) k = Val None"
| "getProp (JNum x) k = Val None"
| "getProp (JStr s) k = Val None"
| "getProp (JArr xs) k = Val None"

text \<open>JavaScript truthiness of a property value.\<close>

fun truthy :: "json option \<Rightarrow> bool" where
  "truthy None = False"
| "truthy (Some JNull) = False"
| "truthy (Some (JBool b)) = b"
| "truthy (Some (JNum x)) = (x \<noteq> 0)"
| "truthy (Some (JStr s)) = (s \<noteq> [])"
| "truthy (Some (JArr xs)) = True"
| "truthy (Some (JObj kvs)) = True"

text \<open>Truthiness of the typed values of the state: \<open>string | null\<close> and \<open>boolean | undefined\<close>.\<close>

fun truthyStr :: "string option \<Rightarrow> bool" where
  "truthyStr None = False"
| "truthyStr (Some s) = (s \<noteq> [])"

fun truthyBool :: "bool option \<Rightarrow> bool" where
  "truthyBool None = False"
| "truthyBool (Some b) = b"

text \<open>
  \<open>x.map(f)\<close> on a property value: \<open>undefined\<close> and \<open>null\<close> throw on the property read, and
  every other value that is not an array has no callable \<open>map\<close>, which throws as well.
\<close>

fun arrayOf :: "json option \<Rightarrow> json list rd" where
  "arrayOf (Some (JArr xs)) = Val xs"
| "arrayOf _ = Raise"

text \<open>Storing a payload value at a declared type.\<close>

fun asString :: "json option \<Rightarrow> string rd" where
  "asString (Some (JStr s)) = Val s"
| "asString _ = Foreign"

fun asNumber :: "json option \<Rightarrow> real rd" where
  "asNumber (Some (JNum x)) = Val x"
| "asNumber _ = Foreign"

fun asBool :: "json option \<Rightarrow> bool rd" where
  "asBool (Some (JBool b)) = Val b"
| "asBool _ = Foreign"

fun asOptString :: "json option \<Rightarrow> string option rd" where
  "asOptString None = Val None"
| "asOptString (Some (JStr s)) = Val (Some s)"
| "asOptString _ = Foreign"

fun asOptBool :: "json option \<Rightarrow> bool option rd" where
  "asOptBool None = Val None"
| "asOptBool (Some (JBool b)) = Val (Some b)"
| "asOptBool _ = Foreign"

text \<open>\<open>xs.map((x, idx) => f(idx, x))\<close>, stopping at the first element on which \<open>f\<close> throws.\<close>

fun map_rd :: "(nat \<Rightarrow> 'a \<Rightarrow> 'b rd) \<Rightarrow> nat \<Rightarrow> 'a list \<Rightarrow> 'b list rd" where
  "map_rd f i [] = Val []"
| "map_rd f i (x # xs) =
     rd_bind (f i x) (\<lambda>y. rd_bind (map_rd f (Suc i) xs) (\<lambda>ys. Val (y # ys)))"

text \<open>\<open>xs.findIndex((x, idx) => p(idx, x))\<close>; \<open>None\<close> is the result \<open>-1\<close>.\<close>

fun findIndex :: "(nat \<Rightarrow> 'a \<Rightarrow> bool) \<Rightarrow> nat \<Rightarrow> 'a list \<Rightarrow> nat option" where
  "findIndex p i [] = None"
| "findIndex p i (x # xs) = (if p i x then Some i else findIndex p (Suc i) xs)"

text \<open>The decimal text of a natural number, as a template literal prints an index or a time.\<close>

fun show_nat :: "nat \<Rightarrow> string" where
  "show_nat n =
     (if n < 10 then [char_of (48 + n)]
      else show_nat (n div 10) @ [char_of (48 + n mod 10)])"

declare show_nat.simps [simp del]

section \<open>Binary-to-text encoding and the URL-safe remap\<close>

type_synonym byte = "8 word"

text \<open>\<open>String.fromCharCode(b)\<close> for a byte and \<open>s.charCodeAt(i)\<close> for a character of a binary string.\<close>

definition fromCharCode :: "byte \<Rightarrow> char" where
  "fromCharCode b = char_of (unat b)"

definition charCodeAt :: "char \<Rightarrow> byte" where
  "charCodeAt c = of_nat (of_char c)"

text \<open>
  The browser's \<open>btoa\<close>: the standard 64-symbol alphabet \<open>A-Z a-z 0-9 + /\<close>, three bytes
  to four symbols, \<open>=\<close> padding.
\<close>

definition b64 :: "nat \<Rightarrow> char" where
  "b64 n =
     (if n < 26 then char_of (65 + n)
      else if n < 52 then char_of (71 + n)
      else if n < 62 then char_of (n - 4)
      else if n = 62 then CHR ''+'' else CHR ''/'')"

fun btoa :: "string \<Rightarrow> string" where
  "btoa [] = []"
| "btoa [a] =
     (let x = of_char a :: nat
      in [b64 (x div 4), b64 ((x mod 4) * 16), CHR ''='', CHR ''=''])"
| "btoa [a, b] =
     (let x = of_char a :: nat; y = of_char b :: nat
      in [b64 (x div 4), b64 ((x mod 4) * 16 + y div 16), b64 ((y mod 16) * 4), CHR ''=''])"
| "btoa (a # b # c # rest) =
     (let x = of_char a :: nat; y = of_char b :: nat; z = of_char c :: nat
      in [b64 (x div 4), b64 ((x mod 4) * 16 + y div 16),
          b64 ((y mod 16) * 4 + z div 64), b64 (z mod 64)] @ btoa rest)"

text \<open>
  The browser's \<open>atob\<close> (forgiving base64 decoding): ASCII whitespace is dropped; when the
  length is a multiple of four, one or two trailing \<open>=\<close> are removed; a length of one
  modulo four or a character outside the alphabet fails (\<open>None\<close>: the call throws); the
  bits left over after the last whole byte are discarded.
\<close>

definition b64index :: "char \<Rightarrow> nat option" where
  "b64index c =
     (let n = of_char c :: nat
      in if 65 \<le> n \<and> n \<le> 90 then Some (n - 65)
         else if 97 \<le> n \<and> n \<le> 122 then Some (n - 71)
         else if 48 \<le> n \<and> n \<le> 57 then Some (n + 4)
         else if c = CHR ''+'' then Some 62
         else if c = CHR ''/'' then Some 63
         else None)"

definition ascii_whitespace :: "char \<Rightarrow> bool" where
  "ascii_whitespace c = ((of_char c :: nat) \<in> {9, 10, 12, 13, 32})"

definition strip_padding :: "string \<Rightarrow> string" where
  "strip_padding d =
     (case rev d of
        e1 # e2 # r \<Rightarrow>
          if e1 = CHR ''='' \<and> e2 = CHR ''='' then rev r
          else if e1 = CHR ''='' then rev (e2 # r) else d
      | [e1] \<Rightarrow> if e1 = CHR ''='' then [] else d
      | [] \<Rightarrow> d)"

fun atob_groups :: "nat list \<Rightarrow> string" where
  "atob_groups (p # q # r # s # rest) =
     [char_of (p * 4 + q div 16), char_of ((q mod 16) * 16 + r div 4),
      char_of ((r mod 4) * 64 + s)] @ atob_groups rest"
| "atob_groups [p, q, r] = [char_of (p * 4 + q div 16), char_of ((q mod 16) * 16 + r div 4)]"
| "atob_groups [p, q] = [char_of (p * 4 + q div 16)]"
| "atob_groups _ = []"

definition atob :: "string \<Rightarrow> string option" where
  "atob s =
     (let d = filter (\<lambda>c. \<not> ascii_whitespace c) s;
          d = (if length d mod 4 = 0 then strip_padding d else d)
      in if length d mod 4 = 1 then None
         else (case those (map b64index d) of
                 None \<Rightarrow> None
               | Some xs \<Rightarrow> Some (atob_groups xs)))"

text \<open>\<open>s.replace(/a/g, b)\<close> for single characters, and \<open>s.replace(/=+$/, '')\<close>.\<close>

definition replaceAll :: "char \<Rightarrow> char \<Rightarrow> string \<Rightarrow> string" where
  "replaceAll a b s = map (\<lambda>c. if c = a then b else c) s"

definition stripTrailingEq :: "string \<Rightarrow> string" where
  "stripTrailingEq s = rev (dropWhile (\<lambda>c. c = CHR ''='') (rev s))"

text \<open>\<open>base64.replace(/\+/g, '-').replace(/\//g, '_').replace(/=+$/, '')\<close>\<close>

definition urlSafe :: "string \<Rightarrow> string" where
  "urlSafe base64 =
     stripTrailingEq
       (replaceAll (CHR ''/'') (CHR ''_'') (replaceAll (CHR ''+'') (CHR ''-'') base64))"

text \<open>\<open>data.replace(/-/g, '+').replace(/_/g, '/')\<close>\<close>

definition fromUrlSafe :: "string \<Rightarrow> string" where
  "fromUrlSafe d = replaceAll (CHR ''_'') (CHR ''/'') (replaceAll (CHR ''-'') (CHR ''+'') d)"

text \<open>\<open>base64 + '='.repeat((4 - base64.length % 4) % 4)\<close>\<close>

definition padded :: "string \<Rightarrow> string" where
  "padded base64 = base64 @ replicate ((4 - length base64 mod 4) mod 4) (CHR ''='')"

text \<open>
  Two descriptions of the output of \<open>btoa\<close> used in the proofs: the indices of its symbols
  and the number of its padding characters.
\<close>

fun sextets :: "string \<Rightarrow> nat list" where
  "sextets [] = []"
| "sextets [a] = (let x = of_char a :: nat in [x div 4, (x mod 4) * 16])"
| "sextets [a, b] =
     (let x = of_char a :: nat; y = of_char b :: nat
      in [x div 4, (x mod 4) * 16 + y div 16, (y mod 16) * 4])"
| "sextets (a # b # c # rest) =
     (let x = of_char a :: nat; y = of_char b :: nat; z = of_char c :: nat
      in [x div 4, (x mod 4) * 16 + y div 16, (y mod 16) * 4 + z div 64, z mod 64]
         @ sextets rest)"

definition padding :: "string \<Rightarrow> nat" where
  "padding s = (3 - length s mod 3) mod 3"

definition toUrl :: "char \<Rightarrow> char" where
  "toUrl c = (if c = CHR ''/'' then CHR ''_'' else if c = CHR ''+'' then CHR ''-'' else c)"

section \<open>The data model\<close>

text \<open>
  The interfaces of the application. An optional field (\<open>description?: string\<close>) is an
  \<open>option\<close>, with \<open>None\<close> for \<open>undefined\<close>; \<open>string | null\<close> is an \<open>option\<close> with \<open>None\<close> for
  \<open>null\<close>. Field names carry a prefix where two interfaces share a name.
\<close>

record Annotation =
  ann_id :: string
  ann_timestamp :: real
  ann_title :: string
  ann_description :: "string option"

record SavedVideo =
  sv_id :: string
  sv_videoId :: string
  sv_title :: string
  sv_url :: string
  sv_generalNotes :: string
  sv_annotations :: "Annotation list"
  sv_createdAt :: nat
  sv_isLocalFile :: "bool option"
  sv_localFileName :: "string option"

record Folder =
  fo_id :: string
  fo_name :: string
  fo_parentId :: "string option"
  fo_isExpanded :: bool

record PlaylistItem =
  it_id :: string
  it_videoId :: string
  it_url :: string
  it_title :: string
  it_isLocalFile :: "bool option"
  it_localFileName :: "string option"

record Playlist =
  pl_id :: string
  pl_name :: string
  pl_items :: "PlaylistItem list"
  pl_createdAt :: nat
  pl_loop :: bool
  pl_startRandom :: "bool option"
  pl_randomTime :: "bool option"

record AmbientSound =
  am_id :: string
  am_videoId :: string
  am_title :: string

record AppData =
  folders :: "Folder list"
  videos :: "SavedVideo list"
  playlists :: "Playlist list"
  ambientSounds :: "AmbientSound list option"

datatype SidebarTab = AnnotationsTab | PlaylistsTab

text \<open>The \<open>useState\<close> cells of the \<open>App\<close> component that the share handlers read or set.\<close>

record AppState =
  appData :: AppData
  currentVideo :: "SavedVideo option"
  videoUrl :: string
  videoId :: "string option"
  localVideoUrl :: "string option"
  localVideoName :: string
  generalNotes :: string
  annotations :: "Annotation list"
  videoTitle :: string
  fetchedVideoTitle :: string
  showImportModal :: bool
  activePlaylist :: "Playlist option"
  playlistIndex :: nat
  isPlaylistMode :: bool
  sidebarTab :: SidebarTab
  ambientVideoId :: "string option"
  currentAmbientId :: "string option"
  ambientVideoTitle :: string
  ambientPlaying :: bool
  localVideosToLink :: "SavedVideo list"
  currentLinkingVideo :: "SavedVideo option"
  linkedLocalVideos :: "(string \<times> string) list"

text \<open>
  What the handlers take from outside the component: the page address, the library calls
  \<open>JSON.stringify\<close>, \<open>JSON.parse\<close>, \<open>pako.deflate\<close> and \<open>pako.inflate\<close> (\<open>None\<close> where the call
  throws) and whether \<open>navigator.clipboard.writeText\<close> resolves.
\<close>

record Env =
  origin :: string
  pathname :: string
  stringify :: "json \<Rightarrow> string"
  parse :: "string \<Rightarrow> json option"
  deflate :: "string \<Rightarrow> byte list option"
  inflate :: "byte list \<Rightarrow> string option"
  writeText :: "string \<Rightarrow> bool"

section \<open>Encoding: \<open>handleShare\<close> and \<open>handleSharePlaylist\<close>\<close>

text \<open>The object \<open>{ t: ann.timestamp, n: ann.title, ...(ann.description ? { d: ann.description } : {}) }\<close>.\<close>

definition compactAnnotation :: "Annotation \<Rightarrow> json" where
  "compactAnnotation ann =
     JObj ([(''t'', JNum (ann_timestamp ann)), (''n'', JStr (ann_title ann))]
           @ (case ann_description ann of
                None \<Rightarrow> []
              | Some d \<Rightarrow> if d \<noteq> [] then [(''d'', JStr d)] else []))"

text \<open>The object \<open>compactData\<close> of \<open>handleShare\<close>.\<close>

definition compactData :: "AppState \<Rightarrow> json" where
  "compactData st =
     JObj ([(''v'', JStr (if truthyStr (videoId st) then the (videoId st) else [])),
            (''t'', JStr (if localVideoName st \<noteq> [] then localVideoName st else ''Shared Video'')),
            (''g'', JStr (generalNotes st)),
            (''a'', JArr (map compactAnnotation (annotations st)))]
           @ (if truthyStr (localVideoUrl st) then [(''l'', JBool True)] else []))"

text \<open>
  The body of the \<open>try\<close> block up to \<open>urlSafe\<close>: serialise, compress, copy the bytes into a
  binary string, encode, remap.
\<close>

definition encodePayload :: "Env \<Rightarrow> json \<Rightarrow> string option" where
  "encodePayload env j =
     (case deflate env (stringify env j) of
        None \<Rightarrow> None
      | Some compressed \<Rightarrow> Some (urlSafe (btoa (map fromCharCode compressed))))"

datatype share_result =
    NoVideo
  | EmptyPlaylist
  | TooLong nat
  | Copied string
  | ShareFailed

text \<open>
  \<open>handleShare\<close>. The result names the alert shown: nothing to share, the URL is too long
  (with its length), the URL was written to the clipboard, or the \<open>catch\<close> branch ran.
\<close>

definition handleShare :: "Env \<Rightarrow> AppState \<Rightarrow> share_result" where
  "handleShare env st =
     (if \<not> truthyStr (videoId st) \<and> \<not> truthyStr (localVideoUrl st) then NoVideo
      else
        (case encodePayload env (compactData st) of
           None \<Rightarrow> ShareFailed
         | Some u \<Rightarrow>
             (let shareUrl = origin env @ pathname env @ ''?d='' @ u
              in if length shareUrl > 8000 then TooLong (length shareUrl)
                 else if writeText env shareUrl then Copied shareUrl
                 else ShareFailed)))"

text \<open>The compact form of one playlist item.\<close>

definition compactPlaylistItem :: "PlaylistItem \<Rightarrow> json" where
  "compactPlaylistItem item =
     JObj ([(''v'', JStr (it_videoId item)),
            (''u'', JStr (if truthyBool (it_isLocalFile item) then [] else it_url item)),
            (''t'', JStr (it_title item))]
           @ (if truthyBool (it_isLocalFile item)
              then [(''l'', JBool True)]
                   @ (case it_localFileName item of None \<Rightarrow> [] | Some f \<Rightarrow> [(''f'', JStr f)])
              else []))"

definition compactAmbientSound :: "AmbientSound \<Rightarrow> json" where
  "compactAmbientSound sound = JObj [(''v'', JStr (am_videoId sound)), (''t'', JStr (am_title sound))]"

text \<open>The object \<open>compactPlaylist\<close> of \<open>handleSharePlaylist\<close>.\<close>

definition compactPlaylist :: "AppData \<Rightarrow> Playlist \<Rightarrow> json" where
  "compactPlaylist ad playlist =
     JObj ([(''n'', JStr (pl_name playlist)),
            (''i'', JArr (map compactPlaylistItem (pl_items playlist))),
            (''lp'', JBool (pl_loop playlist))]
           @ (if truthyBool (pl_startRandom playlist) then [(''sr'', JBool True)] else [])
           @ (if truthyBool (pl_randomTime playlist) then [(''rt'', JBool True)] else [])
           @ (case ambientSounds ad of
                None \<Rightarrow> []
              | Some [] \<Rightarrow> []
              | Some (s # ss) \<Rightarrow> [(''as'', JArr (map compactAmbientSound (s # ss)))]))"

definition handleSharePlaylist :: "Env \<Rightarrow> AppData \<Rightarrow> Playlist \<Rightarrow> share_result" where
  "handleSharePlaylist env ad playlist =
     (if pl_items playlist = [] then EmptyPlaylist
      else
        (case encodePayload env (compactPlaylist ad playlist) of
           None \<Rightarrow> ShareFailed
         | Some u \<Rightarrow>
             (let shareUrl = origin env @ pathname env @ ''?p='' @ u
              in if length shareUrl > 8000 then TooLong (length shareUrl)
                 else if writeText env shareUrl then Copied shareUrl
                 else ShareFailed)))"

section \<open>Decoding: the effect that loads shared data on mount\<close>

text \<open>
  The first statements of either \<open>try\<close> block: undo the remap, pad, \<open>atob\<close>, copy the
  binary string into bytes, inflate, parse. \<open>None\<close> when one of the calls throws.
\<close>

definition decodePayload :: "Env \<Rightarrow> string \<Rightarrow> json option" where
  "decodePayload env data =
     (let base64 = fromUrlSafe data
      in case atob (padded base64) of
           None \<Rightarrow> None
         | Some binaryStr \<Rightarrow>
             (case inflate env (map charCodeAt binaryStr) of
                None \<Rightarrow> None
              | Some decompressed \<Rightarrow> parse env decompressed))"

text \<open>
  How the effect ends: \<open>Done\<close> with the new state; \<open>Caught\<close> when the \<open>catch\<close> branch ran,
  with the state as the setters called before the throw left it; \<open>Untyped\<close> when the payload
  gave a \<open>Foreign\<close> value, which the state as declared cannot hold.
\<close>

datatype result = Done AppState | Caught AppState | Untyped

definition finish :: "AppState \<Rightarrow> AppState rd \<Rightarrow> result" where
  "finish st r = (case r of Raise \<Rightarrow> Caught st | Foreign \<Rightarrow> Untyped | Val st' \<Rightarrow> Done st')"

text \<open>The callback \<open>(ann, idx) => ({ id: `shared_${idx}`, timestamp: ann.t, title: ann.n, description: ann.d })\<close>.\<close>

definition sharedAnnotation :: "nat \<Rightarrow> json \<Rightarrow> Annotation rd" where
  "sharedAnnotation idx ann =
     rd_bind (rd_bind (getProp ann ''t'') asNumber) (\<lambda>t.
     rd_bind (rd_bind (getProp ann ''n'') asString) (\<lambda>n.
     rd_bind (rd_bind (getProp ann ''d'') asOptString) (\<lambda>d.
       Val \<lparr>ann_id = ''shared_'' @ show_nat idx, ann_timestamp = t, ann_title = n,
            ann_description = d\<rparr>)))"

text \<open>\<open>compactData.a.map(...)\<close>\<close>

definition sharedAnnotations :: "json \<Rightarrow> Annotation list rd" where
  "sharedAnnotations j =
     rd_bind (getProp j ''a'') (\<lambda>a. rd_bind (arrayOf a) (map_rd sharedAnnotation 0))"

text \<open>
  The object \<open>sharedVideo\<close> built for a local video; \<open>clock k\<close> is the value of the \<open>k\<close>-th
  call of \<open>Date.now()\<close>.
\<close>

definition sharedVideoOf ::
  "(nat \<Rightarrow> nat) \<Rightarrow> string \<Rightarrow> string \<Rightarrow> Annotation list \<Rightarrow> SavedVideo" where
  "sharedVideoOf clock t g anns =
     \<lparr>sv_id = ''shared_'' @ show_nat (clock 0),
      sv_videoId = [],
      sv_title = t,
      sv_url = [],
      sv_generalNotes = g,
      sv_annotations = anns,
      sv_createdAt = clock 1,
      sv_isLocalFile = Some True,
      sv_localFileName = Some t\<rparr>"

text \<open>The setters of the branch \<open>if (compactData.l)\<close>: prompt for the local file.\<close>

definition linkSharedLocalVideo :: "SavedVideo \<Rightarrow> string \<Rightarrow> AppState \<Rightarrow> AppState" where
  "linkSharedLocalVideo sharedVideo t st =
     st\<lparr>localVideoName := t,
        videoId := None,
        videoUrl := [],
        localVideoUrl := None,
        localVideosToLink := [sharedVideo],
        currentLinkingVideo := Some sharedVideo,
        linkedLocalVideos := [],
        showImportModal := True\<rparr>"

text \<open>The setters of the \<open>else\<close> branch: a YouTube video.\<close>

definition playSharedVideo :: "string \<Rightarrow> AppState \<Rightarrow> AppState" where
  "playSharedVideo v st =
     st\<lparr>videoId := Some v,
        videoUrl := ''https://youtube.com/watch?v='' @ v,
        localVideoUrl := None,
        localVideoName := []\<rparr>"

definition selectSharedVideo :: "(nat \<Rightarrow> nat) \<Rightarrow> json \<Rightarrow> string \<Rightarrow> AppState \<Rightarrow> AppState rd" where
  "selectSharedVideo clock j g st =
     rd_bind (getProp j ''l'') (\<lambda>l.
       if truthy l then
         rd_bind (rd_bind (getProp j ''t'') asString) (\<lambda>t.
         rd_bind (sharedAnnotations j) (\<lambda>anns.
           Val (linkSharedLocalVideo (sharedVideoOf clock t g anns) t st)))
       else
         rd_bind (rd_bind (getProp j ''v'') asString) (\<lambda>v.
           Val (playSharedVideo v st)))"

text \<open>
  The statements of the video share's \<open>try\<close> block after \<open>JSON.parse\<close>:
  \<open>setGeneralNotes\<close>, \<open>setAnnotations\<close>, then the video selection. Clearing the query
  parameter of the address is not part of the state.
\<close>

definition loadCompactData :: "(nat \<Rightarrow> nat) \<Rightarrow> json \<Rightarrow> AppState \<Rightarrow> result" where
  "loadCompactData clock j st =
     (case rd_bind (getProp j ''g'') asString of
        Raise \<Rightarrow> Caught st
      | Foreign \<Rightarrow> Untyped
      | Val g \<Rightarrow>
          (case sharedAnnotations j of
             Raise \<Rightarrow> Caught (st\<lparr>generalNotes := g\<rparr>)
           | Foreign \<Rightarrow> Untyped
           | Val anns \<Rightarrow>
               finish (st\<lparr>generalNotes := g, annotations := anns\<rparr>)
                 (selectSharedVideo clock j g (st\<lparr>generalNotes := g, annotations := anns\<rparr>))))"

text \<open>The callback that rebuilds one playlist item, with the identifier \<open>`item_${idx}`\<close>.\<close>

definition sharedItem :: "nat \<Rightarrow> json \<Rightarrow> PlaylistItem rd" where
  "sharedItem idx item =
     rd_bind (rd_bind (getProp item ''v'') asString) (\<lambda>v.
     rd_bind (rd_bind (getProp item ''u'') asString) (\<lambda>u.
     rd_bind (rd_bind (getProp item ''t'') asString) (\<lambda>t.
     rd_bind (rd_bind (getProp item ''l'') asOptBool) (\<lambda>l.
     rd_bind (rd_bind (getProp item ''f'') asOptString) (\<lambda>f.
       Val \<lparr>it_id = ''item_'' @ show_nat idx, it_videoId = v, it_url = u, it_title = t,
            it_isLocalFile = l, it_localFileName = f\<rparr>)))))"

text \<open>
  The callback that rebuilds one ambient sound, with the identifier
  \<open>`ambient_${Date.now()}_${idx}`\<close>; the calls of \<open>Date.now()\<close> for the playlist's \<open>id\<close> and
  \<open>createdAt\<close> come first, so the sound at \<open>idx\<close> reads \<open>clock (2 + idx)\<close>.
\<close>

definition sharedAmbientSound :: "(nat \<Rightarrow> nat) \<Rightarrow> nat \<Rightarrow> json \<Rightarrow> AmbientSound rd" where
  "sharedAmbientSound clock idx sound =
     rd_bind (rd_bind (getProp sound ''v'') asString) (\<lambda>v.
     rd_bind (rd_bind (getProp sound ''t'') asString) (\<lambda>t.
       Val \<lparr>am_id = ''ambient_'' @ show_nat (clock (2 + idx)) @ ''_'' @ show_nat idx,
            am_videoId = v, am_title = t\<rparr>))"

text \<open>
  The test \<open>compactPlaylist.as && compactPlaylist.as.length > 0\<close>, giving the array to map
  over, or the empty list when the test fails. A non-empty string passes the test and has
  no \<open>map\<close>; the \<open>length\<close> of an object would have to be coerced to a number.
\<close>

fun ambientList :: "json option \<Rightarrow> json list rd" where
  "ambientList None = Val []"
| "ambientList (Some JNull) = Val []"
| "ambientList (Some (JBool b)) = Val []"
| "ambientList (Some (JNum x)) = Val []"
| "ambientList (Some (JStr s)) = (if s = [] then Val [] else Raise)"
| "ambientList (Some (JArr xs)) = Val xs"
| "ambientList (Some (JObj kvs)) = Foreign"

text \<open>The updates made when the shared playlist carries ambient sounds.\<close>

fun loadAmbientSounds :: "AmbientSound list \<Rightarrow> AppState \<Rightarrow> AppState" where
  "loadAmbientSounds [] st = st"
| "loadAmbientSounds (firstAmbient # rest) st =
     st\<lparr>appData := (appData st)\<lparr>ambientSounds := Some (firstAmbient # rest)\<rparr>,
        ambientVideoId := Some (am_videoId firstAmbient),
        currentAmbientId := Some (am_videoId firstAmbient),
        ambientVideoTitle := am_title firstAmbient,
        ambientPlaying := True\<rparr>"

text \<open>
  Starting the shared playlist. \<open>rnd\<close> is the value of \<open>Math.random()\<close>; the alert shown when
  no item is playable changes no state.
\<close>

definition startSharedPlaylist :: "real \<Rightarrow> Playlist \<Rightarrow> AppState \<Rightarrow> AppState" where
  "startSharedPlaylist rnd sharedPlaylist st =
     (let items = pl_items sharedPlaylist;
          startIndex =
            (if truthyBool (pl_startRandom sharedPlaylist) \<and> length items > 0
             then nat \<lfloor>rnd * real (length items)\<rfloor> else 0);
          firstPlayableIndex =
            findIndex (\<lambda>idx item. \<not> truthyBool (it_isLocalFile item)
                         \<and> (if truthyBool (pl_startRandom sharedPlaylist) then idx = startIndex
                            else True)) 0 items;
          actualStartIndex =
            (case firstPlayableIndex of
               Some k \<Rightarrow> Some k
             | None \<Rightarrow> findIndex (\<lambda>idx item. \<not> truthyBool (it_isLocalFile item)) 0 items)
      in case actualStartIndex of
           None \<Rightarrow> st
         | Some k \<Rightarrow>
             (let item = items ! k
              in st\<lparr>activePlaylist := Some sharedPlaylist,
                    playlistIndex := k,
                    isPlaylistMode := True,
                    videoId := Some (it_videoId item),
                    videoUrl := it_url item,
                    localVideoUrl := None,
                    localVideoName := [],
                    currentVideo := None,
                    generalNotes := [],
                    annotations := [],
                    sidebarTab := PlaylistsTab\<rparr>))"

text \<open>
  The reconstruction of the playlist share: the object \<open>sharedPlaylist\<close> and the array
  \<open>sharedAmbientSounds\<close>, built before any setter is called.
\<close>

definition sharedPlaylistOf ::
  "(nat \<Rightarrow> nat) \<Rightarrow> json \<Rightarrow> (Playlist \<times> AmbientSound list) rd" where
  "sharedPlaylistOf clock j =
     rd_bind (rd_bind (getProp j ''n'') asString) (\<lambda>n.
     rd_bind (rd_bind (getProp j ''i'') (\<lambda>i. rd_bind (arrayOf i) (map_rd sharedItem 0))) (\<lambda>items.
     rd_bind (rd_bind (getProp j ''lp'') asBool) (\<lambda>lp.
     rd_bind (rd_bind (getProp j ''sr'') asOptBool) (\<lambda>sr.
     rd_bind (rd_bind (getProp j ''rt'') asOptBool) (\<lambda>rt.
     rd_bind (rd_bind (getProp j ''as'') ambientList) (\<lambda>as.
     rd_bind (map_rd (sharedAmbientSound clock) 0 as) (\<lambda>sharedAmbientSounds.
       Val (\<lparr>pl_id = ''shared_'' @ show_nat (clock 0),
              pl_name = n,
              pl_items = items,
              pl_createdAt = clock 1,
              pl_loop = lp,
              pl_startRandom = sr,
              pl_randomTime = rt\<rparr>,
            sharedAmbientSounds))))))))"

text \<open>The statements of the playlist share's \<open>try\<close> block after \<open>JSON.parse\<close>.\<close>

definition loadCompactPlaylist :: "(nat \<Rightarrow> nat) \<Rightarrow> real \<Rightarrow> json \<Rightarrow> AppState \<Rightarrow> result" where
  "loadCompactPlaylist clock rnd j st =
     (case sharedPlaylistOf clock j of
        Raise \<Rightarrow> Caught st
      | Foreign \<Rightarrow> Untyped
      | Val (sharedPlaylist, sharedAmbientSounds) \<Rightarrow>
          Done (startSharedPlaylist rnd sharedPlaylist (loadAmbientSounds sharedAmbientSounds st)))"

text \<open>
  The effect run on mount: \<open>data\<close> and \<open>playlistData\<close> are the values of the query parameters
  \<open>d\<close> and \<open>p\<close> (\<open>None\<close> when the parameter is absent).
\<close>

definition loadSharedOnMount ::
  "Env \<Rightarrow> (nat \<Rightarrow> nat) \<Rightarrow> real \<Rightarrow> string option \<Rightarrow> string option \<Rightarrow> AppState \<Rightarrow> result" where
  "loadSharedOnMount env clock rnd data playlistData st =
     (if truthyStr data then
        (case decodePayload env (the data) of
           None \<Rightarrow> Caught st
         | Some j \<Rightarrow> loadCompactData clock j st)
      else if truthyStr playlistData then
        (case decodePayload env (the playlistData) of
           None \<Rightarrow> Caught st
         | Some j \<Rightarrow> loadCompactPlaylist clock rnd j st)
      else Done st)"

section \<open>Loading a saved video\<close>

text \<open>\<open>loadVideo\<close>, the handler that opens a video of the library.\<close>

definition loadVideo :: "SavedVideo \<Rightarrow> AppState \<Rightarrow> AppState" where
  "loadVideo video st =
     (let st1 = st\<lparr>isPlaylistMode := False,
                    activePlaylist := None,
                    playlistIndex := 0,
                    currentVideo := Some video,
                    generalNotes := sv_generalNotes video,
                    annotations := sv_annotations video,
                    videoTitle := sv_title video\<rparr>
      in if truthyBool (sv_isLocalFile video) then
           (if sv_url video \<noteq> [] \<and> take 5 (sv_url video) = ''blob:'' then
              st1\<lparr>localVideoUrl := Some (sv_url video),
                  localVideoName :=
                    (if truthyStr (sv_localFileName video) then the (sv_localFileName video)
                     else ''Local Video''),
                  videoId := None,
                  videoUrl := []\<rparr>
            else
              st1\<lparr>localVideoUrl := None,
                  localVideoName :=
                    (if truthyStr (sv_localFileName video) then the (sv_localFileName video)
                     else []),
                  videoId := None,
                  videoUrl := [],
                  localVideosToLink := [video],
                  currentLinkingVideo := Some video,
                  linkedLocalVideos := [],
                  showImportModal := True\<rparr>)
         else
           st1\<lparr>videoUrl := sv_url video,
               videoId := Some (sv_videoId video),
               localVideoUrl := None,
               localVideoName := []\<rparr>)"

section \<open>What a round trip keeps\<close>

text \<open>
  The marker list that a video share gives back: each marker with the identifier of its
  position, an empty description dropped, the order kept.
\<close>

fun renumbered :: "nat \<Rightarrow> Annotation list \<Rightarrow> Annotation list" where
  "renumbered i [] = []"
| "renumbered i (ann # anns) =
     ann\<lparr>ann_id := ''shared_'' @ show_nat i,
         ann_description := (if ann_description ann = Some [] then None else ann_description ann)\<rparr>
     # renumbered (Suc i) anns"

text \<open>
  The library calls are lossless on a payload when \<open>pako.deflate\<close> accepts its text,
  \<open>pako.inflate\<close> gives the text back and \<open>JSON.parse\<close> gives the payload back.
\<close>

definition lossless :: "Env \<Rightarrow> json \<Rightarrow> bool" where
  "lossless env j =
     (case deflate env (stringify env j) of
        None \<Rightarrow> False
      | Some compressed \<Rightarrow>
          inflate env compressed = Some (stringify env j)
          \<and> parse env (stringify env j) = Some j)"

section \<open>The state on mount\<close>

text \<open>
  The initial values of the \<open>useState\<close> cells, with the library that \<open>loadAppData\<close> returns
  when nothing is stored.
\<close>

definition emptyAppData :: AppData where
  "emptyAppData = \<lparr>folders = [], videos = [], playlists = [], ambientSounds = Some []\<rparr>"

definition initialState :: AppState where
  "initialState =
     \<lparr>appData = emptyAppData,
      currentVideo = None,
      videoUrl = [],
      videoId = None,
      localVideoUrl = None,
      localVideoName = [],
      generalNotes = [],
      annotations = [],
      videoTitle = [],
      fetchedVideoTitle = [],
      showImportModal = False,
      activePlaylist = None,
      playlistIndex = 0,
      isPlaylistMode = False,
      sidebarTab = AnnotationsTab,
      ambientVideoId = None,
      currentAmbientId = None,
      ambientVideoTitle = [],
      ambientPlaying = True,
      localVideosToLink = [],
      currentLinkingVideo = None,
      linkedLocalVideos = []\<rparr>"

section \<open>Example sessions and share links\<close>

text \<open>
  An environment whose library calls are fixed on one payload: \<open>JSON.stringify\<close> gives
  \<open>text\<close> for it, \<open>pako.deflate\<close> gives \<open>compressed\<close> for that text, and \<open>pako.inflate\<close> and
  \<open>JSON.parse\<close> lead back. The page is served at \<open>https://notes.example/\<close> and the
  clipboard accepts the write.
\<close>

definition tableEnv :: "json \<Rightarrow> string \<Rightarrow> byte list \<Rightarrow> Env" where
  "tableEnv payload text compressed =
     \<lparr>origin = ''https://notes.example'',
      pathname = ''/'',
      stringify = (\<lambda>j. if j = payload then text else []),
      parse = (\<lambda>s. if s = text then Some payload else None),
      deflate = (\<lambda>s. if s = text then Some compressed else None),
      inflate = (\<lambda>b. if b = compressed then Some text else None),
      writeText = (\<lambda>u. True)\<rparr>"

text \<open>
  A saved streaming video whose second marker was moved before the first one (editing a
  timestamp does not sort the list again), and the session after opening it.
\<close>

definition cupFinal :: SavedVideo where
  "cupFinal =
     \<lparr>sv_id = ''root/1'',
      sv_videoId = ''abc12345678'',
      sv_title = ''Cup final'',
      sv_url = ''https://youtube.com/watch?v=abc12345678'',
      sv_generalNotes = ''first half'',
      sv_annotations =
        [\<lparr>ann_id = ''1'', ann_timestamp = 90, ann_title = ''Goal'', ann_description = None\<rparr>,
         \<lparr>ann_id = ''2'', ann_timestamp = 30, ann_title = ''Kickoff'', ann_description = None\<rparr>],
      sv_createdAt = 0,
      sv_isLocalFile = None,
      sv_localFileName = None\<rparr>"

definition cupSession :: AppState where
  "cupSession = loadVideo cupFinal initialState"

text \<open>The text of its compact form, the zlib stream of that text, and the share parameter.\<close>

definition cupText :: string where
  \<open>cupText = ''{"v":"abc12345678","t":"Shared Video","g":"first half","a":[{"t":90,"n":"Goal"},{"t":30,"n":"Kickoff"}]}''\<close>

definition cupBytes :: "byte list" where
  "cupBytes =
     [120, 156, 171, 86, 42, 83, 178, 82, 74, 76, 74, 54, 52, 50, 54, 49, 53, 51, 183, 80,
      210, 81, 42, 1, 138, 4, 103, 36, 22, 165, 166, 40, 132, 101, 166, 164, 230, 3, 133,
      210, 129, 66, 105, 153, 69, 197, 37, 10, 25, 137, 57, 105, 64, 129, 68, 37, 171, 232,
      106, 144, 74, 75, 3, 29, 165, 60, 160, 172, 123, 126, 98, 142, 82, 173, 14, 88, 204,
      24, 42, 230, 157, 153, 156, 157, 159, 150, 166, 84, 27, 91, 11, 0, 232, 41, 29, 138]"

definition cupParam :: string where
  "cupParam =
     ''eJyrVipTslJKTEo2NDI2MTUzt1DSUSoBigRnJBalpiiEZaak5gOF0oFCaZlFxSUKGYk5aUCBRCWr6GqQSksDHaU8oKx7fmKOUq0OWMwYKuadmZydn5amVBtbCwDoKR2K''"

text \<open>The state of a fresh page after it has loaded that share link.\<close>

definition cupLoaded :: AppState where
  "cupLoaded =
     initialState
       \<lparr>generalNotes := ''first half'',
        annotations :=
          [\<lparr>ann_id = ''shared_0'', ann_timestamp = 90, ann_title = ''Goal'', ann_description = None\<rparr>,
           \<lparr>ann_id = ''shared_1'', ann_timestamp = 30, ann_title = ''Kickoff'',
            ann_description = None\<rparr>],
        videoId := Some ''abc12345678'',
        videoUrl := ''https://youtube.com/watch?v=abc12345678''\<rparr>"

text \<open>
  A session on a local file with one described marker, the text of its compact form, the
  zlib stream of that text, and the share parameter.
\<close>

definition matchSession :: AppState where
  "matchSession =
     initialState
       \<lparr>localVideoUrl := Some ''blob:https://notes.example/77aa'',
        localVideoName := ''match.mp4'',
        generalNotes := ''watch the press'',
        annotations :=
          [\<lparr>ann_id = ''1700000000000'', ann_timestamp = 12.5, ann_title = ''Press'',
            ann_description = Some ''high line''\<rparr>]\<rparr>"




text \<open>The pending video and the state of a fresh page after it has loaded that share link at
  clock reading \<open>now\<close>.\<close>

definition matchShared :: "nat \<Rightarrow> SavedVideo" where
  "matchShared now =
     \<lparr>sv_id = ''shared_'' @ show_nat now,
      sv_videoId = [],
      sv_title = ''match.mp4'',
      sv_url = [],
      sv_generalNotes = ''watch the press'',
      sv_annotations =
        [\<lparr>ann_id = ''shared_0'', ann_timestamp = 12.5, ann_title = ''Press'',
          ann_description = Some ''high line''\<rparr>],
      sv_createdAt = now,
      sv_isLocalFile = Some True,
      sv_localFileName = Some ''match.mp4''\<rparr>"

definition matchLoaded :: "nat \<Rightarrow> AppState" where
  "matchLoaded now =
     initialState
       \<lparr>generalNotes := ''watch the press'',
        annotations :=
          [\<lparr>ann_id = ''shared_0'', ann_timestamp = 12.5, ann_title = ''Press'',
            ann_description = Some ''high line''\<rparr>],
        localVideoName := ''match.mp4'',
        localVideosToLink := [matchShared now],
        currentLinkingVideo := Some (matchShared now),
        showImportModal := True\<rparr>"








text \<open>
  A playlist of one streaming video with \<open>startRandom\<close> set to \<open>false\<close>, shared from a
  library that holds one ambient sound.
\<close>

definition mixPlaylist :: Playlist where
  "mixPlaylist =
     \<lparr>pl_id = ''p1'',
      pl_name = ''Mix'',
      pl_items =
        [\<lparr>it_id = ''i1'', it_videoId = ''abc12345678'', it_url = ''https://youtu.be/abc12345678'',
          it_title = ''First'', it_isLocalFile = None, it_localFileName = None\<rparr>],
      pl_createdAt = 0,
      pl_loop = False,
      pl_startRandom = Some False,
      pl_randomTime = None\<rparr>"

definition rainLibrary :: AppData where
  "rainLibrary =
     emptyAppData
       \<lparr>ambientSounds := Some [\<lparr>am_id = ''a1'', am_videoId = ''rain0000000'', am_title = ''Rain''\<rparr>]\<rparr>"

definition mixText :: string where
  \<open>mixText = ''{"n":"Mix","i":[{"v":"abc12345678","u":"https://youtu.be/abc12345678","t":"First"}],"lp":false,"as":[{"v":"rain0000000","t":"Rain"}]}''\<close>

definition mixBytes :: "byte list" where
  "mixBytes =
     [120, 156, 171, 86, 202, 83, 178, 82, 242, 205, 172, 80, 210, 81, 202, 84, 178, 138,
      174, 86, 42, 3, 242, 19, 147, 146, 13, 141, 140, 77, 76, 205, 204, 45, 128, 226, 165,
      64, 145, 140, 146, 146, 130, 98, 43, 125, 253, 202, 252, 210, 146, 82, 189, 164, 84,
      125, 84, 37, 37, 64, 37, 110, 153, 69, 197, 37, 74, 181, 177, 58, 74, 57, 5, 74, 86,
      105, 137, 57, 197, 169, 58, 74, 137, 197, 112, 67, 139, 18, 51, 243, 12, 32, 0, 170,
      35, 8, 40, 2, 212, 80, 11, 0, 193, 128, 37, 197]"

definition mixParam :: string where
  "mixParam =
     ''eJyrVspTslLyzaxQ0lHKVLKKrlYqA_ITk5INjYxNTM3MLYDipUCRjJKSgmIrff3K_NKSUr2kVH1UJSVAJW6ZRcUlSrWxOko5BUpWaYk5xak6SonFcEOLEjPzDCAAqiMIKALUUAsAwYAlxQ''"

text \<open>The playlist that a decode at clock reading \<open>now\<close> rebuilds from that link.\<close>

definition mixShared :: "nat \<Rightarrow> Playlist" where
  "mixShared now =
     \<lparr>pl_id = ''shared_'' @ show_nat now,
      pl_name = ''Mix'',
      pl_items =
        [\<lparr>it_id = ''item_0'', it_videoId = ''abc12345678'', it_url = ''https://youtu.be/abc12345678'',
          it_title = ''First'', it_isLocalFile = None, it_localFileName = None\<rparr>],
      pl_createdAt = now,
      pl_loop = False,
      pl_startRandom = None,
      pl_randomTime = None\<rparr>"

definition rainShared :: "nat \<Rightarrow> AmbientSound" where
  "rainShared now =
     \<lparr>am_id = ''ambient_'' @ show_nat now @ ''_0'', am_videoId = ''rain0000000'',
      am_title = ''Rain''\<rparr>"

text \<open>The library of the receiving browser: a folder, a video, a playlist, an ambient sound.\<close>

definition homeLibrary :: AppData where
  "homeLibrary =
     \<lparr>folders = [\<lparr>fo_id = ''f1'', fo_name = ''Matches'', fo_parentId = None, fo_isExpanded = True\<rparr>],
      videos = [cupFinal],
      playlists = [mixPlaylist],
      ambientSounds = Some [\<lparr>am_id = ''a0'', am_videoId = ''wind0000000'', am_title = ''Wind''\<rparr>]\<rparr>"

text \<open>A playlist with one local file, whose \<open>url\<close> is a blob reference of the sharing browser.\<close>

definition localPlaylist :: Playlist where
  "localPlaylist =
     \<lparr>pl_id = ''p2'',
      pl_name = ''Training'',
      pl_items =
        [\<lparr>it_id = ''i1'', it_videoId = [], it_url = ''blob:https://notes.example/3f1c'',
          it_title = ''Match'', it_isLocalFile = Some True,
          it_localFileName = Some ''match.mp4''\<rparr>],
      pl_createdAt = 0,
      pl_loop = True,
      pl_startRandom = None,
      pl_randomTime = None\<rparr>"

section \<open>Properties of the binary-to-text encoding\<close>

lemma div16_lt: "y < 256 \<Longrightarrow> y div 16 < (16::nat)"
  by (simp add: less_mult_imp_div_less)
lemma div64_lt: "z < 256 \<Longrightarrow> z div 64 < (4::nat)"
  by (simp add: less_mult_imp_div_less)
lemma div4_lt: "x < 256 \<Longrightarrow> x div 4 < (64::nat)"
  by (simp add: less_mult_imp_div_less)
lemma mod4_times16_le: "(x::nat) mod 4 * 16 \<le> 48" 
proof -
  have "x mod 4 < 4" by simp
  then show ?thesis by linarith
qed
lemma mod16_times4_le: "(y::nat) mod 16 * 4 \<le> 60"
proof -
  have "y mod 16 < 16" by simp
  then show ?thesis by linarith
qed
lemma sextet2_lt_one: "(x::nat) mod 4 * 16 < 64"
  using mod4_times16_le [of x] by linarith
lemma sextet2_lt: "y < 256 \<Longrightarrow> (x::nat) mod 4 * 16 + y div 16 < 64" 
  using div16_lt [of y] mod4_times16_le [of x] by linarith
lemma sextet3_lt_two: "(y::nat) mod 16 * 4 < 64"
  using mod16_times4_le [of y] by linarith
lemma sextet3_lt: "z < 256 \<Longrightarrow> (y::nat) mod 16 * 4 + z div 64 < 64"
  using div64_lt [of z] mod16_times4_le [of y] by linarith
lemma byte1_back: "y < 256 \<Longrightarrow> (x::nat) div 4 * 4 + (x mod 4 * 16 + y div 16) div 16 = x"
  using div16_lt [of y] by simp
lemma byte2_back_two: "y < 256 \<Longrightarrow> ((x::nat) mod 4 * 16 + y div 16) mod 16 * 16 + y mod 16 * 4 div 4 = y"
  using div16_lt [of y] by simp
lemma byte2_back: "y < 256 \<Longrightarrow> z < 256 \<Longrightarrow> ((x::nat) mod 4 * 16 + y div 16) mod 16 * 16 + (y mod 16 * 4 + z div 64) div 4 = y"
  using div16_lt [of y] div64_lt [of z] by simp
lemma byte3_back: "z < 256 \<Longrightarrow> ((y::nat) mod 16 * 4 + z div 64) mod 4 * 64 + z mod 64 = z"
  using div64_lt [of z] by simp

lemma b64_code:
  "n < 64 \<Longrightarrow> (of_char (b64 n) :: nat) =
     (if n < 26 then 65 + n else if n < 52 then 71 + n else if n < 62 then n - 4
      else if n = 62 then 43 else 47)"
  by (simp add: b64_def)

lemma b64index_b64: "n < 64 \<Longrightarrow> b64index (b64 n) = Some n"
  by (auto simp add: b64_def b64index_def Let_def)

lemma b64_not_special:
  assumes "n < 64"
  shows "b64 n \<noteq> CHR ''=''" and "b64 n \<noteq> CHR ''-''" and "b64 n \<noteq> CHR ''_''"
    and "\<not> ascii_whitespace (b64 n)"
proof -
  have c: "(of_char (b64 n) :: nat) \<notin> {61, 45, 95, 9, 10, 12, 13, 32}"
    using assms by (auto simp add: b64_code)
  show "b64 n \<noteq> CHR ''=''" using c by auto
  show "b64 n \<noteq> CHR ''-''" using c by auto
  show "b64 n \<noteq> CHR ''_''" using c by auto
  show "\<not> ascii_whitespace (b64 n)" using c by (simp add: ascii_whitespace_def)
qed

lemma sextets_bound: "list_all (\<lambda>n. n < 64) (sextets s)"
proof (induction s rule: sextets.induct)
  case 1
  show ?case by simp
next
  case (2 a)
  have "(of_char a :: nat) < 256" by simp
  then show ?case by (simp add: Let_def div4_lt sextet2_lt_one)
next
  case (3 a b)
  have "(of_char a :: nat) < 256" "(of_char b :: nat) < 256" by simp_all
  then show ?case by (simp add: Let_def div4_lt sextet2_lt sextet3_lt_two)
next
  case (4 a b c rest)
  have "(of_char a :: nat) < 256" "(of_char b :: nat) < 256" "(of_char c :: nat) < 256"
    by simp_all
  with 4 show ?case by (simp add: Let_def div4_lt sextet2_lt sextet3_lt)
qed

lemma padding_step: "padding (a # b # c # rest) = padding rest"
  by (simp add: padding_def)

lemma btoa_sextets: "btoa s = map b64 (sextets s) @ replicate (padding s) (CHR ''='')"
proof (induction s rule: sextets.induct)
  case 1
  show ?case by (simp add: padding_def)
next
  case (2 a)
  show ?case by (simp add: padding_def Let_def numeral_2_eq_2)
next
  case (3 a b)
  show ?case by (simp add: padding_def Let_def)
next
  case (4 a b c rest)
  then show ?case by (simp add: Let_def padding_step)
qed

lemma length_btoa: "length (btoa s) = 4 * ((length s + 2) div 3)"
proof (induction s rule: btoa.induct)
  case (4 a b c rest)
  have "(length (a # b # c # rest) + 2) div 3 = Suc ((length rest + 2) div 3)"
    by simp
  with 4 show ?case by (simp add: Let_def)
qed (simp_all add: Let_def)

lemma padding_le: "padding s \<le> 2"
proof -
  have "length s mod 3 < 3" by simp
  then show ?thesis unfolding padding_def by linarith
qed

lemma atob_groups_sextets: "atob_groups (sextets s) = s"
proof (induction s rule: sextets.induct)
  case 1
  show ?case by simp
next
  case (2 a)
  show ?case by (simp add: Let_def)
next
  case (3 a b)
  have b: "(of_char b :: nat) < 256" by simp
  show ?case
    by (simp only: sextets.simps atob_groups.simps Let_def byte1_back [OF b] byte2_back_two [OF b] char_of_char)
next
  case (4 a b c rest)
  have b: "(of_char b :: nat) < 256" and c: "(of_char c :: nat) < 256" by simp_all
  show ?case
    by (simp only: sextets.simps atob_groups.simps Let_def append.simps
          byte1_back [OF b] byte2_back [OF b c] byte3_back [OF c] char_of_char 4)
qed

lemma those_b64index: "list_all (\<lambda>n. n < 64) xs \<Longrightarrow> those (map (b64index \<circ> b64) xs) = Some xs"
  by (induction xs) (simp_all add: b64index_b64)

lemma strip_padding_btoa:
  assumes "list_all (\<lambda>c. c \<noteq> CHR ''='') body" and "k \<le> 2"
  shows "strip_padding (body @ replicate k (CHR ''='')) = body"
proof -
  have k: "k = 0 \<or> k = 1 \<or> k = 2" using assms(2) by linarith
  show ?thesis
  proof (cases "rev body")
    case Nil
    then have "body = []" by simp
    then show ?thesis using k by (auto simp add: strip_padding_def numeral_2_eq_2)
  next
    case (Cons e r)
    then have "e \<in> set body" by (metis list.set_intros(1) set_rev)
    then have e: "e \<noteq> CHR ''=''" using assms(1) by (simp add: list_all_iff)
    have b: "body = rev r @ [e]" using Cons by (metis rev.simps(2) rev_rev_ident)
    show ?thesis using k e unfolding b
      by (auto simp add: strip_padding_def numeral_2_eq_2 split: list.splits)
  qed
qed

lemma body_no_eq: "list_all (\<lambda>n. n < 64) xs \<Longrightarrow> list_all (\<lambda>c. c \<noteq> CHR ''='') (map b64 xs)"
  by (induction xs) (simp_all add: b64_not_special)

lemma body_no_ws: "list_all (\<lambda>n. n < 64) xs \<Longrightarrow> filter (\<lambda>c. \<not> ascii_whitespace c) (map b64 xs) = map b64 xs"
  by (induction xs) (simp_all add: b64_not_special)

lemma eq_not_ws: "\<not> ascii_whitespace (CHR ''='')"
  by (simp add: ascii_whitespace_def)

lemma length_body: "length (sextets s) + padding s = 4 * ((length s + 2) div 3)"
  using length_btoa [of s] by (simp add: btoa_sextets)

lemma atob_btoa: "atob (btoa s) = Some s"
proof -
  let ?body = "map b64 (sextets s)"
  let ?pad = "replicate (padding s) (CHR ''='')"
  have f: "filter (\<lambda>c. \<not> ascii_whitespace c) (btoa s) = ?body @ ?pad"
    by (simp add: btoa_sextets body_no_ws sextets_bound eq_not_ws)
  have l: "length (?body @ ?pad) mod 4 = 0"
    using length_body [of s] by simp
  have st: "strip_padding (?body @ ?pad) = ?body"
    by (rule strip_padding_btoa) (simp_all add: body_no_eq sextets_bound padding_le)
  have n1: "length ?body mod 4 \<noteq> 1"
  proof -
    have "length (sextets s) + padding s = 4 * ((length s + 2) div 3)" by (rule length_body)
    moreover have "padding s \<le> 2" by (rule padding_le)
    ultimately have "(length (sextets s) + padding s) mod 4 = 0" by simp
    then show ?thesis using \<open>padding s \<le> 2\<close>
      by (cases "padding s = 0"; cases "padding s = 1"; cases "padding s = 2")
         (auto simp add: mod_Suc numeral_2_eq_2 split: if_splits)
  qed
  show ?thesis
    unfolding atob_def f
    using l st n1 by (simp add: Let_def those_b64index sextets_bound atob_groups_sextets)
qed

lemma replaceAll_append: "replaceAll a b (s @ t) = replaceAll a b s @ replaceAll a b t"
  by (simp add: replaceAll_def)

lemma replaceAll_pad: "a \<noteq> CHR ''='' \<Longrightarrow> replaceAll a b (replicate k (CHR ''='')) = replicate k (CHR ''='')"
  by (simp add: replaceAll_def)

lemma stripTrailingEq_pad:
  assumes "list_all (\<lambda>c. c \<noteq> CHR ''='') body"
  shows "stripTrailingEq (body @ replicate k (CHR ''='')) = body"
proof -
  have "dropWhile (\<lambda>c. c = CHR ''='') (rev body) = rev body"
  proof (cases "rev body")
    case Nil
    then show ?thesis by simp
  next
    case (Cons e r)
    then have "e \<in> set body" by (metis list.set_intros(1) set_rev)
    then have "e \<noteq> CHR ''=''" using assms by (simp add: list_all_iff)
    then show ?thesis using Cons by simp
  qed
  moreover have "dropWhile (\<lambda>c. c = CHR ''='') (replicate k (CHR ''='') @ rev body)
      = dropWhile (\<lambda>c. c = CHR ''='') (rev body)"
    by (rule dropWhile_append2) simp
  ultimately show ?thesis by (simp add: stripTrailingEq_def)
qed

lemma urlSafe_body:
  assumes "list_all (\<lambda>n. n < 64) xs"
  shows "replaceAll (CHR ''/'') (CHR ''_'') (replaceAll (CHR ''+'') (CHR ''-'') (map b64 xs)) = map (toUrl \<circ> b64) xs"
  by (simp add: replaceAll_def toUrl_def)

lemma toUrl_no_eq: "n < 64 \<Longrightarrow> toUrl (b64 n) \<noteq> CHR ''=''"
  by (simp add: toUrl_def b64_not_special)

lemma fromUrl_toUrl:
  "n < 64 \<Longrightarrow> (if (if toUrl (b64 n) = CHR ''-'' then CHR ''+'' else toUrl (b64 n)) = CHR ''_'' then CHR ''/''
      else (if toUrl (b64 n) = CHR ''-'' then CHR ''+'' else toUrl (b64 n))) = b64 n"
  using b64_not_special [of n] by (auto simp add: toUrl_def)

lemma fromUrlSafe_body:
  "list_all (\<lambda>n. n < 64) xs \<Longrightarrow> fromUrlSafe (map (toUrl \<circ> b64) xs) = map b64 xs"
  by (induction xs) (simp_all add: fromUrlSafe_def replaceAll_def fromUrl_toUrl)

lemma urlSafe_btoa: "urlSafe (btoa s) = map (toUrl \<circ> b64) (sextets s)"
proof -
  have "list_all (\<lambda>c. c \<noteq> CHR ''='') (map (toUrl \<circ> b64) (sextets s))"
    using sextets_bound [of s] by (simp add: list_all_iff toUrl_no_eq)
  then show ?thesis
    unfolding urlSafe_def btoa_sextets replaceAll_append
    by (simp add: replaceAll_pad urlSafe_body sextets_bound stripTrailingEq_pad)
qed

lemma pad_count:
  assumes "n + k = 4 * m" and "k \<le> 2"
  shows "(4 - n mod 4) mod 4 = (k::nat)"
proof -
  have "(n + k) mod 4 = 0" using assms(1) by simp
  then show ?thesis using assms(2)
    by (cases "k = 0"; cases "k = 1"; cases "k = 2") (auto simp add: mod_Suc numeral_2_eq_2 split: if_splits)
qed

lemma fromUrlSafe_urlSafe_btoa: "fromUrlSafe (urlSafe (btoa s)) = map b64 (sextets s)"
  by (simp add: urlSafe_btoa fromUrlSafe_body sextets_bound)

lemma padded_body: "padded (map b64 (sextets s)) = btoa s"
proof -
  have "(4 - length (sextets s) mod 4) mod 4 = padding s"
    by (rule pad_count [OF length_body padding_le])
  then show ?thesis
    by (simp add: padded_def btoa_sextets [symmetric])
qed

lemma fromCharCode_inverse: "map charCodeAt (map fromCharCode bs) = bs"
proof -
  have "charCodeAt (fromCharCode b) = b" for b
  proof -
    have "unat b < 2 ^ 8" using unsigned_less [of b] by simp
    then show ?thesis by (simp add: charCodeAt_def fromCharCode_def)
  qed
  then show ?thesis by (simp add: comp_def)
qed

section \<open>Properties of the readers and of the reconstruction\<close>

lemma rd_bind_Val: "rd_bind m f = Val y \<longleftrightarrow> (\<exists>x. m = Val x \<and> f x = Val y)"
  by (cases m) simp_all


lemma map_rd_length: "map_rd f i xs = Val ys \<Longrightarrow> length ys = length xs"
  by (induction xs arbitrary: i ys) (auto simp add: rd_bind_Val)

lemma map_rd_nth:
  "map_rd f i xs = Val ys \<Longrightarrow> k < length xs \<Longrightarrow> f (i + k) (xs ! k) = Val (ys ! k)"
proof (induction xs arbitrary: i ys k)
  case Nil
  then show ?case by simp
next
  case (Cons x xs)
  from Cons.prems(1) obtain y ys' where y: "f i x = Val y"
    and ys': "map_rd f (Suc i) xs = Val ys'" and ys: "ys = y # ys'"
    by (auto simp add: rd_bind_Val)
  show ?case
  proof (cases k)
    case 0
    then show ?thesis using y ys by simp
  next
    case (Suc k')
    then have "k' < length xs" using Cons.prems(2) by simp
    from Cons.IH [OF ys' this] show ?thesis using Suc ys by simp
  qed
qed

lemma asNumber_Val: "asNumber x = Val t \<longleftrightarrow> x = Some (JNum t)"
  by (cases x rule: asNumber.cases) simp_all

lemma asString_Val: "asString x = Val s \<longleftrightarrow> x = Some (JStr s)"
  by (cases x rule: asString.cases) simp_all

lemma asBool_Val: "asBool x = Val b \<longleftrightarrow> x = Some (JBool b)"
  by (cases x rule: asBool.cases) simp_all

lemma asOptString_Val: "asOptString x = Val d \<longleftrightarrow> x = map_option JStr d"
  by (cases x rule: asOptString.cases; cases d) auto

lemma asOptBool_Val: "asOptBool x = Val d \<longleftrightarrow> x = map_option JBool d"
  by (cases x rule: asOptBool.cases; cases d) auto



lemma sharedAnnotation_Val:
  assumes "sharedAnnotation idx ann = Val a"
  shows "ann_id a = ''shared_'' @ show_nat idx
       \<and> getProp ann ''t'' = Val (Some (JNum (ann_timestamp a)))
       \<and> getProp ann ''n'' = Val (Some (JStr (ann_title a)))
       \<and> getProp ann ''d'' = Val (map_option JStr (ann_description a))"
  using assms
  by (auto simp add: sharedAnnotation_def rd_bind_Val asNumber_Val asString_Val asOptString_Val)

lemma selectSharedVideo_annotations:
  "selectSharedVideo clock j g st = Val st' \<Longrightarrow>
     annotations st' = annotations st \<and> generalNotes st' = generalNotes st
     \<and> appData st' = appData st"
  by (auto simp add: selectSharedVideo_def rd_bind_Val linkSharedLocalVideo_def
        playSharedVideo_def split: if_splits)


lemma loadCompactData_Done:
  assumes "loadCompactData clock j st = Done st'"
  shows "sharedAnnotations j = Val (annotations st')"
proof -
  from assms obtain g anns where a: "sharedAnnotations j = Val anns"
    and f: "selectSharedVideo clock j g (st\<lparr>generalNotes := g, annotations := anns\<rparr>) = Val st'"
    by (auto simp add: loadCompactData_def finish_def split: rd.splits)
  from selectSharedVideo_annotations [OF f] a show ?thesis by simp
qed



lemma appData_startSharedPlaylist: "appData (startSharedPlaylist rnd pl st) = appData st"
  by (simp add: startSharedPlaylist_def Let_def split: option.splits)


lemma fromCharCode_inverse': "map (charCodeAt \<circ> fromCharCode) bs = bs"
  using fromCharCode_inverse [of bs] by simp

lemma sharedAnnotation_compact:
  "sharedAnnotation i (compactAnnotation ann) =
     Val (ann\<lparr>ann_id := ''shared_'' @ show_nat i,
              ann_description := (if ann_description ann = Some [] then None else ann_description ann)\<rparr>)"
  by (cases "ann_description ann") (simp_all add: sharedAnnotation_def compactAnnotation_def)

lemma map_rd_compactAnnotation:
  "map_rd sharedAnnotation i (map compactAnnotation anns) = Val (renumbered i anns)"
  by (induction anns arbitrary: i) (simp_all add: sharedAnnotation_compact)

lemma sharedAnnotations_compactData:
  "sharedAnnotations (compactData S) = Val (renumbered 0 (annotations S))"
  by (simp add: sharedAnnotations_def compactData_def map_rd_compactAnnotation)



lemma decode_encode:
  assumes "lossless env j" and "encodePayload env j = Some d"
  shows "decodePayload env d = Some j"
proof -
  from assms(1) obtain compressed where c: "deflate env (stringify env j) = Some compressed"
    and i: "inflate env compressed = Some (stringify env j)"
    and p: "parse env (stringify env j) = Some j"
    by (auto simp add: lossless_def split: option.splits)
  have "d = urlSafe (btoa (map fromCharCode compressed))"
    using assms(2) by (simp add: encodePayload_def c)
  then show ?thesis
    by (simp add: decodePayload_def Let_def fromUrlSafe_urlSafe_btoa padded_body atob_btoa
          fromCharCode_inverse' i p)
qed

lemma loadCompactData_compactData:
  "loadCompactData clock (compactData S) st =
     Done (if truthyStr (localVideoUrl S)
           then linkSharedLocalVideo
                  (sharedVideoOf clock
                     (if localVideoName S \<noteq> [] then localVideoName S else ''Shared Video'')
                     (generalNotes S) (renumbered 0 (annotations S)))
                  (if localVideoName S \<noteq> [] then localVideoName S else ''Shared Video'')
                  (st\<lparr>generalNotes := generalNotes S,
                      annotations := renumbered 0 (annotations S)\<rparr>)
           else playSharedVideo (if truthyStr (videoId S) then the (videoId S) else [])
                  (st\<lparr>generalNotes := generalNotes S,
                      annotations := renumbered 0 (annotations S)\<rparr>))"
proof -
  have a: "sharedAnnotations (compactData S) = Val (renumbered 0 (annotations S))"
    by (rule sharedAnnotations_compactData)
  have g: "rd_bind (getProp (compactData S) ''g'') asString = Val (generalNotes S)"
    by (simp add: compactData_def)
  have s: "selectSharedVideo clock (compactData S) g' st' =
     Val (if truthyStr (localVideoUrl S)
           then linkSharedLocalVideo
                  (sharedVideoOf clock
                     (if localVideoName S \<noteq> [] then localVideoName S else ''Shared Video'')
                     g' (renumbered 0 (annotations S)))
                  (if localVideoName S \<noteq> [] then localVideoName S else ''Shared Video'') st'
           else playSharedVideo (if truthyStr (videoId S) then the (videoId S) else []) st')"
    for g' st'
    unfolding selectSharedVideo_def a by (simp add: compactData_def)
  show ?thesis
    unfolding loadCompactData_def g a s by (simp add: finish_def)
qed

lemma sharedItem_Val:
  assumes "sharedItem idx item = Val it"
  shows "it_id it = ''item_'' @ show_nat idx"
  using assms by (auto simp add: sharedItem_def rd_bind_Val)

lemma sharedAmbientSound_Val:
  assumes "sharedAmbientSound clock idx sound = Val s"
  shows "am_id s = ''ambient_'' @ show_nat (clock (2 + idx)) @ ''_'' @ show_nat idx
       \<and> getProp sound ''v'' = Val (Some (JStr (am_videoId s)))
       \<and> getProp sound ''t'' = Val (Some (JStr (am_title s)))"
  using assms by (auto simp add: sharedAmbientSound_def rd_bind_Val asString_Val)

lemma sharedItem_compact: "\<exists>it. sharedItem i (compactPlaylistItem item) = Val it"
  by (cases "it_localFileName item") (simp_all add: sharedItem_def compactPlaylistItem_def)

lemma map_rd_compactPlaylistItem:
  "\<exists>its. map_rd sharedItem i (map compactPlaylistItem items) = Val its"
proof (induction items arbitrary: i)
  case Nil
  show ?case by simp
next
  case (Cons item items)
  from sharedItem_compact obtain it where "sharedItem i (compactPlaylistItem item) = Val it"
    by blast
  moreover from Cons obtain its where
    "map_rd sharedItem (Suc i) (map compactPlaylistItem items) = Val its"
    by blast
  ultimately show ?case by simp
qed

lemma sharedAmbientSound_compact:
  "\<exists>s. sharedAmbientSound clock i (compactAmbientSound sound) = Val s"
  by (simp add: sharedAmbientSound_def compactAmbientSound_def)

lemma map_rd_compactAmbientSound:
  "\<exists>ss. map_rd (sharedAmbientSound clock) i (map compactAmbientSound sounds) = Val ss"
proof (induction sounds arbitrary: i)
  case Nil
  show ?case by simp
next
  case (Cons sound sounds)
  from sharedAmbientSound_compact obtain s where
    "sharedAmbientSound clock i (compactAmbientSound sound) = Val s"
    by blast
  moreover from Cons obtain ss where
    "map_rd (sharedAmbientSound clock) (Suc i) (map compactAmbientSound sounds) = Val ss"
    by blast
  ultimately show ?case by simp
qed

lemma getProp_compactPlaylist:
  "getProp (compactPlaylist ad p) ''n'' = Val (Some (JStr (pl_name p)))"
  "getProp (compactPlaylist ad p) ''i'' = Val (Some (JArr (map compactPlaylistItem (pl_items p))))"
  "getProp (compactPlaylist ad p) ''lp'' = Val (Some (JBool (pl_loop p)))"
  "getProp (compactPlaylist ad p) ''sr''
     = Val (if truthyBool (pl_startRandom p) then Some (JBool True) else None)"
  "getProp (compactPlaylist ad p) ''rt''
     = Val (if truthyBool (pl_randomTime p) then Some (JBool True) else None)"
  "getProp (compactPlaylist ad p) ''as''
     = Val (case ambientSounds ad of
              None \<Rightarrow> None
            | Some [] \<Rightarrow> None
            | Some (s # ss) \<Rightarrow> Some (JArr (map compactAmbientSound (s # ss))))"
  by (simp_all add: compactPlaylist_def split: option.splits list.splits)

lemma sharedPlaylistOf_compactPlaylist:
  "\<exists>its sounds.
     sharedPlaylistOf clock (compactPlaylist ad p) =
       Val (\<lparr>pl_id = ''shared_'' @ show_nat (clock 0),
              pl_name = pl_name p,
              pl_items = its,
              pl_createdAt = clock 1,
              pl_loop = pl_loop p,
              pl_startRandom = (if truthyBool (pl_startRandom p) then Some True else None),
              pl_randomTime = (if truthyBool (pl_randomTime p) then Some True else None)\<rparr>,
            sounds)"
proof -
  obtain its where i: "map_rd sharedItem 0 (map compactPlaylistItem (pl_items p)) = Val its"
    using map_rd_compactPlaylistItem by blast
  have "\<exists>sounds. rd_bind (rd_bind (getProp (compactPlaylist ad p) ''as'') ambientList)
          (map_rd (sharedAmbientSound clock) 0) = Val sounds"
  proof (cases "ambientSounds ad")
    case None
    then show ?thesis by (simp add: getProp_compactPlaylist)
  next
    case (Some ss)
    show ?thesis
    proof (cases ss)
      case Nil
      then show ?thesis using Some by (simp add: getProp_compactPlaylist)
    next
      case (Cons s ss')
      obtain r where "map_rd (sharedAmbientSound clock) 0 (map compactAmbientSound (s # ss')) = Val r"
        using map_rd_compactAmbientSound by blast
      then show ?thesis using Some Cons by (simp add: getProp_compactPlaylist)
    qed
  qed
  then obtain sounds where
    s: "rd_bind (rd_bind (getProp (compactPlaylist ad p) ''as'') ambientList)
          (map_rd (sharedAmbientSound clock) 0) = Val sounds"
    by blast
  then obtain as where as: "rd_bind (getProp (compactPlaylist ad p) ''as'') ambientList = Val as"
    and m: "map_rd (sharedAmbientSound clock) 0 as = Val sounds"
    by (auto simp add: rd_bind_Val)
  show ?thesis
    unfolding sharedPlaylistOf_def
    by (simp add: getProp_compactPlaylist(1-5) i as m)
qed

lemma findIndex_range: "findIndex p i xs = Some k \<Longrightarrow> i \<le> k \<and> k < i + length xs"
proof (induction xs arbitrary: i)
  case Nil
  then show ?case by simp
next
  case (Cons x xs)
  show ?case
  proof (cases "p i x")
    case True
    then show ?thesis using Cons.prems by simp
  next
    case False
    then have "findIndex p (Suc i) xs = Some k" using Cons.prems by simp
    from Cons.IH [OF this] show ?thesis by simp
  qed
qed

section \<open>Facts about the examples and the effect\<close>

lemma cup_compact:
  "compactData cupSession =
     JObj [(''v'', JStr ''abc12345678''), (''t'', JStr ''Shared Video''),
           (''g'', JStr ''first half''),
           (''a'', JArr [JObj [(''t'', JNum 90), (''n'', JStr ''Goal'')],
                        JObj [(''t'', JNum 30), (''n'', JStr ''Kickoff'')]])]"
  by (simp add: cupSession_def cupFinal_def loadVideo_def initialState_def compactData_def
        compactAnnotation_def Let_def)

lemma match_compact:
  "compactData matchSession =
     JObj [(''v'', JStr []), (''t'', JStr ''match.mp4''), (''g'', JStr ''watch the press''),
           (''a'', JArr [JObj [(''t'', JNum 12.5), (''n'', JStr ''Press''),
                              (''d'', JStr ''high line'')]]),
           (''l'', JBool True)]"
  by (simp add: matchSession_def initialState_def compactData_def compactAnnotation_def)

lemma mix_compact:
  "compactPlaylist rainLibrary mixPlaylist =
     JObj [(''n'', JStr ''Mix''),
           (''i'', JArr [JObj [(''v'', JStr ''abc12345678''),
                              (''u'', JStr ''https://youtu.be/abc12345678''),
                              (''t'', JStr ''First'')]]),
           (''lp'', JBool False),
           (''as'', JArr [JObj [(''v'', JStr ''rain0000000''), (''t'', JStr ''Rain'')]])]"
  by (simp add: compactPlaylist_def compactPlaylistItem_def compactAmbientSound_def
        rainLibrary_def mixPlaylist_def emptyAppData_def)

lemma cup_encode:
  "encodePayload (tableEnv (compactData cupSession) cupText cupBytes) (compactData cupSession)
     = Some cupParam"
  unfolding cup_compact by code_simp


lemma tableEnv_lossless: "lossless (tableEnv j text compressed) j"
  by (simp add: lossless_def tableEnv_def)

lemma tableEnv_decode:
  "encodePayload (tableEnv j text compressed) j = Some d \<Longrightarrow>
     decodePayload (tableEnv j text compressed) d = Some j"
  by (rule decode_encode [OF tableEnv_lossless])


lemma loadSharedOnMount_playlist:
  "\<not> truthyStr data \<Longrightarrow> d \<noteq> [] \<Longrightarrow> decodePayload env d = Some j \<Longrightarrow>
     loadSharedOnMount env clock rnd data (Some d) st = loadCompactPlaylist clock rnd j st"
  by (simp add: loadSharedOnMount_def)

lemma mix_encode:
  "encodePayload (tableEnv (compactPlaylist rainLibrary mixPlaylist) mixText mixBytes)
     (compactPlaylist rainLibrary mixPlaylist) = Some mixParam"
  unfolding mix_compact by code_simp

lemma cup_share:
  "handleShare (tableEnv (compactData cupSession) cupText cupBytes) cupSession
     = Copied (''https://notes.example/?d='' @ cupParam)"
proof -
  have v: "truthyStr (videoId cupSession)"
    by (simp add: cupSession_def cupFinal_def loadVideo_def Let_def)
  have l: "length cupParam = 128" by (simp add: cupParam_def)
  show ?thesis
    using v l by (simp add: handleShare_def cup_encode Let_def) (simp add: tableEnv_def)
qed

lemma length_urlSafe_btoa: "length (urlSafe (btoa s)) + padding s = 4 * ((length s + 2) div 3)"
  using length_body [of s] by (simp add: urlSafe_btoa)

lemma oversized_encode:
  "encodePayload (tableEnv j text (replicate 6000 0)) j
     = Some (urlSafe (btoa (replicate 6000 (fromCharCode 0))))"
  by (simp add: encodePayload_def tableEnv_def)

lemma oversized_length: "length (urlSafe (btoa (replicate 6000 (fromCharCode 0)))) = 8000"
  using length_urlSafe_btoa [of "replicate 6000 (fromCharCode 0)"]
  by (simp add: padding_def)

lemma compactPlaylistItem_local:
  "truthyBool (it_isLocalFile item) \<Longrightarrow>
     compactPlaylistItem (item\<lparr>it_url := sourceUrl\<rparr>) = compactPlaylistItem item"
  by (simp add: compactPlaylistItem_def)

lemma map_update_same: "k < length xs \<Longrightarrow> f y = f (xs ! k) \<Longrightarrow> map f (xs[k := y]) = map f xs"
  by (simp add: map_update list_update_same_conv)

lemma show_nat_0: "show_nat 0 = ''0''"
  by code_simp

lemma mix_rebuilt:
  "sharedPlaylistOf (\<lambda>k. now) (compactPlaylist rainLibrary mixPlaylist)
     = Val (mixShared now, [rainShared now])"
  unfolding mix_compact
  by (simp add: sharedPlaylistOf_def sharedItem_def sharedAmbientSound_def mixShared_def
        rainShared_def show_nat_0)

lemma sharedPlaylistOf_Val:
  assumes "sharedPlaylistOf clock j = Val (pl, sounds)"
  shows "rd_bind (getProp j ''i'') (\<lambda>i. rd_bind (arrayOf i) (map_rd sharedItem 0)) = Val (pl_items pl)"
    and "pl_id pl = ''shared_'' @ show_nat (clock 0)"
    and "getProp j ''sr'' = Val (map_option JBool (pl_startRandom pl))"
    and "getProp j ''rt'' = Val (map_option JBool (pl_randomTime pl))"
    and "\<exists>as. rd_bind (getProp j ''as'') ambientList = Val as
           \<and> map_rd (sharedAmbientSound clock) 0 as = Val sounds"
  using assms
  by (auto simp add: sharedPlaylistOf_def rd_bind_Val asOptBool_Val)

lemma map_option_Val: "map_option Val x = Some (Val y) \<Longrightarrow> x = Some y"
  by (cases x) simp_all

lemma mix_decode:
  "decodePayload (tableEnv (compactPlaylist rainLibrary mixPlaylist) mixText mixBytes) mixParam
     = Some (compactPlaylist rainLibrary mixPlaylist)"
  by (rule tableEnv_decode [OF mix_encode])

lemma mix_load:
  "loadSharedOnMount (tableEnv (compactPlaylist rainLibrary mixPlaylist) mixText mixBytes)
     (\<lambda>k. now) rnd None (Some mixParam) st
   = Done (startSharedPlaylist rnd (mixShared now) (loadAmbientSounds [rainShared now] st))"
proof -
  have m: "mixParam \<noteq> []" by (simp add: mixParam_def)
  have n: "\<not> truthyStr None" by simp
  show ?thesis
    using loadSharedOnMount_playlist [OF n m mix_decode]
    by (simp add: loadCompactPlaylist_def mix_rebuilt)
qed






lemma show_nat_1: "show_nat 1 = ''1''"
  by code_simp

lemma show_nat_1000: "show_nat 1000 = ''1000''"
  by code_simp

lemma show_nat_2000: "show_nat 2000 = ''2000''"
  by code_simp

lemma cup_load:
  "loadCompactData clock (compactData cupSession) initialState = Done cupLoaded"
proof -
  have s: "\<not> truthyStr (localVideoUrl cupSession)" "truthyStr (videoId cupSession)"
    "the (videoId cupSession) = ''abc12345678''" "generalNotes cupSession = ''first half''"
    "annotations cupSession =
        [\<lparr>ann_id = ''1'', ann_timestamp = 90, ann_title = ''Goal'', ann_description = None\<rparr>,
         \<lparr>ann_id = ''2'', ann_timestamp = 30, ann_title = ''Kickoff'', ann_description = None\<rparr>]"
    by (simp_all add: cupSession_def cupFinal_def loadVideo_def Let_def)
  show ?thesis
    unfolding loadCompactData_compactData
    by (simp add: s playSharedVideo_def cupLoaded_def initialState_def show_nat_0
          show_nat_1 [simplified])
qed

lemma mix_started:
  "activePlaylist (startSharedPlaylist 0 (mixShared now) st) = Some (mixShared now)"
  by (simp add: startSharedPlaylist_def mixShared_def Let_def)

lemma match_load:
  "loadCompactData (\<lambda>k. now) (compactData matchSession) initialState = Done (matchLoaded now)"
proof -
  have s: "truthyStr (localVideoUrl matchSession)" "localVideoName matchSession = ''match.mp4''"
    "generalNotes matchSession = ''watch the press''"
    "annotations matchSession =
        [\<lparr>ann_id = ''1700000000000'', ann_timestamp = 12.5, ann_title = ''Press'',
          ann_description = Some ''high line''\<rparr>]"
    by (simp_all add: matchSession_def)
  show ?thesis
    unfolding loadCompactData_compactData
    by (simp add: s linkSharedLocalVideo_def sharedVideoOf_def matchLoaded_def matchShared_def
          initialState_def show_nat_0)
qed

lemma selectSharedVideo_local:
  "selectSharedVideo clock j g st = Val s \<Longrightarrow> getProp j ''l'' = Val l \<Longrightarrow> truthy l \<Longrightarrow>
     map sv_id (localVideosToLink s) = [''shared_'' @ show_nat (clock 0)]"
  by (auto simp add: selectSharedVideo_def rd_bind_Val linkSharedLocalVideo_def sharedVideoOf_def)

lemma loadCompactData_Done_select:
  assumes "loadCompactData clock j st = Done s"
  shows "\<exists>g st2. selectSharedVideo clock j g st2 = Val s"
  using assms
  by (auto simp add: loadCompactData_def finish_def split: rd.splits)

lemma loadCompactData_local_id:
  assumes "loadCompactData clock j st = Done s" and "getProp j ''l'' = Val l" and "truthy l"
  shows "map sv_id (localVideosToLink s) = [''shared_'' @ show_nat (clock 0)]"
proof -
  from loadCompactData_Done_select [OF assms(1)] obtain g st2 where
    "selectSharedVideo clock j g st2 = Val s"
    by blast
  then show ?thesis using assms(2,3) by (rule selectSharedVideo_local)
qed

section \<open>The claims\<close>







text \<open>
  Claim C3, as amended. A video share that decodes gives the markers of the wire array in
  wire order: the decoded list is as long as the array, and the marker at each position
  has the identifier of that position and the time, label and description of the wire
  element at that position. The decoder keeps the wire order and does not sort.
\<close>

theorem markers_keep_wire_order:
  assumes "loadCompactData clock j st = Done st'"
    and "getProp j ''a'' = Val (Some (JArr wire))"
  shows "length (annotations st') = length wire
       \<and> (\<forall>k<length wire.
            ann_id (annotations st' ! k) = ''shared_'' @ show_nat k
            \<and> getProp (wire ! k) ''t'' = Val (Some (JNum (ann_timestamp (annotations st' ! k))))
            \<and> getProp (wire ! k) ''n'' = Val (Some (JStr (ann_title (annotations st' ! k))))
            \<and> getProp (wire ! k) ''d''
                = Val (map_option JStr (ann_description (annotations st' ! k))))"
proof -
  have "sharedAnnotations j = Val (annotations st')"
    by (rule loadCompactData_Done [OF assms(1)])
  then have m: "map_rd sharedAnnotation 0 wire = Val (annotations st')"
    using assms(2) by (simp add: sharedAnnotations_def)
  have l: "length (annotations st') = length wire"
    by (rule map_rd_length [OF m])
  have e: "sharedAnnotation k (wire ! k) = Val (annotations st' ! k)" if "k < length wire" for k
    using map_rd_nth [OF m that] by simp
  show ?thesis
  proof (rule conjI [OF l], rule allI, rule impI)
    fix k assume k: "k < length wire"
    from sharedAnnotation_Val [OF e [OF k]]
    show "ann_id (annotations st' ! k) = ''shared_'' @ show_nat k
            \<and> getProp (wire ! k) ''t'' = Val (Some (JNum (ann_timestamp (annotations st' ! k))))
            \<and> getProp (wire ! k) ''n'' = Val (Some (JStr (ann_title (annotations st' ! k))))
            \<and> getProp (wire ! k) ''d''
                = Val (map_option JStr (ann_description (annotations st' ! k)))"
      by simp
  qed
qed

theorem markers_keep_wire_order_witness:
  "length (annotations cupLoaded) = 2
   \<and> getProp (JObj [(''t'', JNum 90), (''n'', JStr ''Goal'')]) ''t''
       = Val (Some (JNum (ann_timestamp (annotations cupLoaded ! 0))))
   \<and> getProp (JObj [(''t'', JNum 30), (''n'', JStr ''Kickoff'')]) ''t''
       = Val (Some (JNum (ann_timestamp (annotations cupLoaded ! 1))))"
proof -
  let ?wire = "[JObj [(''t'', JNum 90), (''n'', JStr ''Goal'')],
                JObj [(''t'', JNum 30), (''n'', JStr ''Kickoff'')]]"
  have a: "getProp (compactData cupSession) ''a'' = Val (Some (JArr ?wire))"
    by (simp add: cup_compact)
  note t = markers_keep_wire_order [OF cup_load a]
  have l: "length (annotations cupLoaded) = 2" using conjunct1 [OF t] by simp
  have k0: "0 < length ?wire" and k1: "1 < length ?wire" by simp_all
  note t0 = conjunct2 [OF t, rule_format, OF k0]
  note t1 = conjunct2 [OF t, rule_format, OF k1]
  have "getProp (?wire ! 0) ''t'' = Val (Some (JNum (ann_timestamp (annotations cupLoaded ! 0))))"
    by (rule conjunct1 [OF conjunct2 [OF t0]])
  moreover have "getProp (?wire ! 1) ''t'' = Val (Some (JNum (ann_timestamp (annotations cupLoaded ! 1))))"
    by (rule conjunct1 [OF conjunct2 [OF t1]])
  ultimately show ?thesis using l by simp
qed

text \<open>
  Claim C3 as stated fails: the compact form of \<open>cupSession\<close> carries its markers at 90 and
  30 seconds in that order, and the decoded markers are at 90 and 30 seconds in that order.
\<close>

theorem marker_order_counterexample:
  "loadCompactData (\<lambda>k. 0) (compactData cupSession) initialState = Done cupLoaded
   \<and> map ann_timestamp (annotations cupLoaded) = [90, 30]
   \<and> \<not> sorted (map ann_timestamp (annotations cupLoaded))"
  using cup_load by (simp add: cupLoaded_def initialState_def)

text \<open>
  Claim C4. Whenever the URL built from the encoded session, video or playlist, is longer
  than 8000 characters, the handler ends with the too-long alert, which reports that
  length, and writes nothing to the clipboard; whatever a handler writes to the clipboard
  is the whole URL around the whole encoded string, never a shortened one; and a URL of at
  most 8000 characters is written whole whenever the clipboard accepts it.
\<close>

theorem size_boundary:
  assumes "encodePayload env (compactData st) = Some u"
    and "truthyStr (videoId st) \<or> truthyStr (localVideoUrl st)"
    and "encodePayload env' (compactPlaylist ad playlist) = Some w"
    and "pl_items playlist \<noteq> []"
  shows "(8000 < length (origin env @ pathname env @ ''?d='' @ u) \<longrightarrow>
            handleShare env st = TooLong (length (origin env @ pathname env @ ''?d='' @ u)))
       \<and> (8000 < length (origin env' @ pathname env' @ ''?p='' @ w) \<longrightarrow>
            handleSharePlaylist env' ad playlist
              = TooLong (length (origin env' @ pathname env' @ ''?p='' @ w)))
       \<and> (\<forall>url. handleShare env st = Copied url \<longrightarrow>
            url = origin env @ pathname env @ ''?d='' @ u \<and> length url \<le> 8000)
       \<and> (\<forall>url. handleSharePlaylist env' ad playlist = Copied url \<longrightarrow>
            url = origin env' @ pathname env' @ ''?p='' @ w \<and> length url \<le> 8000)
       \<and> (length (origin env @ pathname env @ ''?d='' @ u) \<le> 8000
            \<and> writeText env (origin env @ pathname env @ ''?d='' @ u) \<longrightarrow>
            handleShare env st = Copied (origin env @ pathname env @ ''?d='' @ u))
       \<and> (length (origin env' @ pathname env' @ ''?p='' @ w) \<le> 8000
            \<and> writeText env' (origin env' @ pathname env' @ ''?p='' @ w) \<longrightarrow>
            handleSharePlaylist env' ad playlist = Copied (origin env' @ pathname env' @ ''?p='' @ w))"
  using assms
  by (auto simp add: handleShare_def handleSharePlaylist_def Let_def split: if_splits)

theorem size_boundary_witness:
  "handleShare (tableEnv (compactData cupSession) cupText (replicate 6000 0)) cupSession
     = TooLong 8025
   \<and> handleSharePlaylist
       (tableEnv (compactPlaylist rainLibrary mixPlaylist) mixText (replicate 6000 0))
       rainLibrary mixPlaylist = TooLong 8025
   \<and> handleShare (tableEnv (compactData cupSession) cupText cupBytes) cupSession
     = Copied (''https://notes.example/?d='' @ cupParam)
   \<and> length (''https://notes.example/?d='' @ cupParam) = 153"
proof -
  let ?u = "urlSafe (btoa (replicate 6000 (fromCharCode 0)))"
  let ?e1 = "tableEnv (compactData cupSession) cupText (replicate 6000 0)"
  let ?e2 = "tableEnv (compactPlaylist rainLibrary mixPlaylist) mixText (replicate 6000 0)"
  let ?e3 = "tableEnv (compactData cupSession) cupText cupBytes"
  let ?e4 = "tableEnv (compactPlaylist rainLibrary mixPlaylist) mixText mixBytes"
  have h2: "truthyStr (videoId cupSession) \<or> truthyStr (localVideoUrl cupSession)"
    by (simp add: cupSession_def cupFinal_def loadVideo_def Let_def)
  have h4: "pl_items mixPlaylist \<noteq> []" by (simp add: mixPlaylist_def)
  have e1: "encodePayload ?e1 (compactData cupSession) = Some ?u" by (rule oversized_encode)
  have e2: "encodePayload ?e2 (compactPlaylist rainLibrary mixPlaylist) = Some ?u"
    by (rule oversized_encode)
  have l1: "length (origin ?e1 @ pathname ?e1 @ ''?d='' @ ?u) = 8025"
    by (simp add: tableEnv_def oversized_length)
  have l2: "length (origin ?e2 @ pathname ?e2 @ ''?p='' @ ?u) = 8025"
    by (simp add: tableEnv_def oversized_length)
  have long: "handleShare ?e1 cupSession = TooLong 8025
      \<and> handleSharePlaylist ?e2 rainLibrary mixPlaylist = TooLong 8025"
    using size_boundary [OF e1 h2 e2 h4] unfolding l1 l2 by simp
  have "\<forall>url. handleShare ?e3 cupSession = Copied url \<longrightarrow>
      url = origin ?e3 @ pathname ?e3 @ ''?d='' @ cupParam \<and> length url \<le> 8000"
    by (rule conjunct1 [OF conjunct2 [OF conjunct2 [OF size_boundary [OF cup_encode h2 mix_encode h4]]]])
  then have short: "length (''https://notes.example/?d='' @ cupParam) \<le> 8000"
    using cup_share by simp
  have "length (''https://notes.example/?d='' @ cupParam) = 153"
    by (simp add: cupParam_def)
  then show ?thesis using long short cup_share by simp
qed

text \<open>
  Claim C5. For a playlist entry flagged as a local file, the compact payload, and with
  it the whole outcome of \<open>handleSharePlaylist\<close>, is the same whatever the entry's \<open>url\<close>
  is: the wire entry carries the empty string under \<open>u\<close>, and it carries the local file
  name under \<open>f\<close> whenever the entry has one.
\<close>

theorem local_file_non_leak:
  assumes "k < length (pl_items playlist)"
    and "truthyBool (it_isLocalFile (pl_items playlist ! k))"
  shows "compactPlaylist ad
           (playlist\<lparr>pl_items := (pl_items playlist)[k := (pl_items playlist ! k)\<lparr>it_url := sourceUrl\<rparr>]\<rparr>)
         = compactPlaylist ad playlist
       \<and> handleSharePlaylist env ad
           (playlist\<lparr>pl_items := (pl_items playlist)[k := (pl_items playlist ! k)\<lparr>it_url := sourceUrl\<rparr>]\<rparr>)
         = handleSharePlaylist env ad playlist
       \<and> getProp (compactPlaylistItem (pl_items playlist ! k)) ''u'' = Val (Some (JStr []))
       \<and> getProp (compactPlaylistItem (pl_items playlist ! k)) ''f''
         = Val (map_option JStr (it_localFileName (pl_items playlist ! k)))"
proof -
  let ?p = "playlist\<lparr>pl_items := (pl_items playlist)[k := (pl_items playlist ! k)\<lparr>it_url := sourceUrl\<rparr>]\<rparr>"
  have m: "map compactPlaylistItem (pl_items ?p) = map compactPlaylistItem (pl_items playlist)"
    using assms by (simp add: map_update_same compactPlaylistItem_local)
  then have c: "compactPlaylist ad ?p = compactPlaylist ad playlist"
    by (simp add: compactPlaylist_def)
  have e: "(pl_items ?p = []) = (pl_items playlist = [])"
    by simp
  have h: "handleSharePlaylist env ad ?p = handleSharePlaylist env ad playlist"
    unfolding handleSharePlaylist_def c e by (rule refl)
  have u: "getProp (compactPlaylistItem (pl_items playlist ! k)) ''u'' = Val (Some (JStr []))"
    using assms(2) by (simp add: compactPlaylistItem_def)
  have f: "getProp (compactPlaylistItem (pl_items playlist ! k)) ''f''
         = Val (map_option JStr (it_localFileName (pl_items playlist ! k)))"
    using assms(2) by (simp add: compactPlaylistItem_def split: option.splits)
  show ?thesis using c h u f by blast
qed

theorem local_file_non_leak_witness:
  "compactPlaylist emptyAppData
     (localPlaylist\<lparr>pl_items := (pl_items localPlaylist)[0 := (pl_items localPlaylist ! 0)\<lparr>it_url := ''blob:other''\<rparr>]\<rparr>)
   = JObj [(''n'', JStr ''Training''),
           (''i'', JArr [JObj [(''v'', JStr []), (''u'', JStr []), (''t'', JStr ''Match''),
                              (''l'', JBool True), (''f'', JStr ''match.mp4'')]]),
           (''lp'', JBool True)]"
proof -
  have h1: "0 < length (pl_items localPlaylist)" by (simp add: localPlaylist_def)
  have h2: "truthyBool (it_isLocalFile (pl_items localPlaylist ! 0))" by (simp add: localPlaylist_def)
  have "compactPlaylist emptyAppData localPlaylist
   = JObj [(''n'', JStr ''Training''),
           (''i'', JArr [JObj [(''v'', JStr []), (''u'', JStr []), (''t'', JStr ''Match''),
                              (''l'', JBool True), (''f'', JStr ''match.mp4'')]]),
           (''lp'', JBool True)]"
    by (simp add: compactPlaylist_def compactPlaylistItem_def localPlaylist_def emptyAppData_def)
  then show ?thesis
    using local_file_non_leak [OF h1 h2, of emptyAppData "''blob:other''"] by simp
qed

text \<open>
  Claim C6, as amended. For a playlist whose \<open>startRandom\<close> is false or absent the compact
  payload has no key \<open>sr\<close>; likewise it has no key \<open>rt\<close> when \<open>randomTime\<close> is false or absent,
  and the compact payload of a video share has no key \<open>l\<close> when no local video is loaded.
  Decoding the playlist payload succeeds and yields a playlist whose \<open>startRandom\<close>
  (\<open>randomTime\<close>) is absent, which every test of the flag takes as false; it is not the
  value false.
\<close>

theorem omitted_flags_round_trip:
  "(\<not> truthyBool (pl_startRandom playlist) \<longrightarrow>
      getProp (compactPlaylist ad playlist) ''sr'' = Val None)
   \<and> (\<not> truthyBool (pl_randomTime playlist) \<longrightarrow>
      getProp (compactPlaylist ad playlist) ''rt'' = Val None)
   \<and> (\<not> truthyStr (localVideoUrl st) \<longrightarrow> getProp (compactData st) ''l'' = Val None)
   \<and> (case sharedPlaylistOf clock (compactPlaylist ad playlist) of
        Val (pl, sounds) \<Rightarrow>
          (\<not> truthyBool (pl_startRandom playlist) \<longrightarrow>
             pl_startRandom pl = None \<and> \<not> truthyBool (pl_startRandom pl))
          \<and> (\<not> truthyBool (pl_randomTime playlist) \<longrightarrow>
             pl_randomTime pl = None \<and> \<not> truthyBool (pl_randomTime pl))
      | Raise \<Rightarrow> False
      | Foreign \<Rightarrow> False)"
proof -
  obtain its sounds where
    "sharedPlaylistOf clock (compactPlaylist ad playlist) =
       Val (\<lparr>pl_id = ''shared_'' @ show_nat (clock 0),
              pl_name = pl_name playlist,
              pl_items = its,
              pl_createdAt = clock 1,
              pl_loop = pl_loop playlist,
              pl_startRandom = (if truthyBool (pl_startRandom playlist) then Some True else None),
              pl_randomTime = (if truthyBool (pl_randomTime playlist) then Some True else None)\<rparr>,
            sounds)"
    using sharedPlaylistOf_compactPlaylist by blast
  then show ?thesis
    by (simp add: getProp_compactPlaylist compactData_def)
qed

theorem omitted_flags_round_trip_witness:
  "getProp (compactPlaylist rainLibrary mixPlaylist) ''sr'' = Val None
   \<and> getProp (compactPlaylist rainLibrary mixPlaylist) ''rt'' = Val None
   \<and> getProp (compactData cupSession) ''l'' = Val None
   \<and> pl_startRandom (mixShared 0) = None"
proof -
  have h1: "\<not> truthyBool (pl_startRandom mixPlaylist)" by (simp add: mixPlaylist_def)
  have h2: "\<not> truthyBool (pl_randomTime mixPlaylist)" by (simp add: mixPlaylist_def)
  have h3: "\<not> truthyStr (localVideoUrl cupSession)"
    by (simp add: cupSession_def cupFinal_def loadVideo_def Let_def)
  note t = omitted_flags_round_trip [where playlist = mixPlaylist and ad = rainLibrary
      and st = cupSession and clock = "\<lambda>k. 0"]
  have a: "getProp (compactPlaylist rainLibrary mixPlaylist) ''sr'' = Val None"
    using conjunct1 [OF t] h1 by simp
  have b: "getProp (compactPlaylist rainLibrary mixPlaylist) ''rt'' = Val None"
    using conjunct1 [OF conjunct2 [OF t]] h2 by simp
  have c: "getProp (compactData cupSession) ''l'' = Val None"
    using conjunct1 [OF conjunct2 [OF conjunct2 [OF t]]] h3 by simp
  have d: "pl_startRandom (mixShared 0) = None"
    using conjunct2 [OF conjunct2 [OF conjunct2 [OF t]]] h1
    by (simp add: mix_rebuilt)
  from a b c d show ?thesis by simp
qed

text \<open>
  Claim C6 as stated fails: \<open>mixPlaylist\<close> holds \<open>startRandom\<close> false; its payload has no key
  \<open>sr\<close>, and the playlist rebuilt from the payload holds \<open>startRandom\<close> absent, not false.
\<close>

theorem omitted_flag_counterexample:
  "pl_startRandom mixPlaylist = Some False
   \<and> getProp (compactPlaylist rainLibrary mixPlaylist) ''sr'' = Val None
   \<and> sharedPlaylistOf (\<lambda>k. 0) (compactPlaylist rainLibrary mixPlaylist)
       = Val (mixShared 0, [rainShared 0])
   \<and> pl_startRandom (mixShared 0) = None"
proof -
  have "pl_startRandom mixPlaylist = Some False" by (simp add: mixPlaylist_def)
  moreover have "getProp (compactPlaylist rainLibrary mixPlaylist) ''sr'' = Val None"
    by (simp add: mix_compact)
  moreover have "pl_startRandom (mixShared 0) = None" by (simp add: mixShared_def)
  ultimately show ?thesis using mix_rebuilt [of 0] by simp
qed

text \<open>
  Claim C7, as amended. Two decodes of one payload, at any two clocks, give the same
  markers and the same playlist items, with the identifiers \<open>shared_k\<close> and \<open>item_k\<close> of their
  positions. The identifier of the rebuilt playlist, and of the video that a local-file
  share leaves pending, is \<open>shared_\<close> followed by the time of its decode, and the identifier
  of the ambient sound at position \<open>k\<close> is \<open>ambient_\<close>, the time of its decode, \<open>_\<close> and \<open>k\<close>:
  these agree between two decodes when the clock readings agree.
\<close>

theorem position_ids_deterministic:
  "(loadCompactData clock j st = Done s \<and> loadCompactData clock' j st' = Done s' \<longrightarrow>
      annotations s = annotations s'
      \<and> (\<forall>k<length (annotations s). ann_id (annotations s ! k) = ''shared_'' @ show_nat k))
   \<and> (sharedPlaylistOf clock j = Val (pl, sounds) \<and> sharedPlaylistOf clock' j = Val (pl', sounds') \<longrightarrow>
      pl_items pl = pl_items pl'
      \<and> (\<forall>k<length (pl_items pl). it_id (pl_items pl ! k) = ''item_'' @ show_nat k)
      \<and> pl_id pl = ''shared_'' @ show_nat (clock 0)
      \<and> pl_id pl' = ''shared_'' @ show_nat (clock' 0)
      \<and> length sounds = length sounds'
      \<and> (\<forall>k<length sounds.
            am_id (sounds ! k) = ''ambient_'' @ show_nat (clock (2 + k)) @ ''_'' @ show_nat k
            \<and> am_id (sounds' ! k) = ''ambient_'' @ show_nat (clock' (2 + k)) @ ''_'' @ show_nat k))
   \<and> (loadCompactData clock j st = Done s \<and> getProp j ''l'' = Val l \<and> truthy l \<longrightarrow>
      map sv_id (localVideosToLink s) = [''shared_'' @ show_nat (clock 0)])"
proof -
  have A: "(loadCompactData clock j st = Done s \<and> loadCompactData clock' j st' = Done s' \<longrightarrow>
      annotations s = annotations s'
      \<and> (\<forall>k<length (annotations s). ann_id (annotations s ! k) = ''shared_'' @ show_nat k))"
  proof (rule impI)
    assume a: "loadCompactData clock j st = Done s \<and> loadCompactData clock' j st' = Done s'"
    have s: "sharedAnnotations j = Val (annotations s)"
      by (rule loadCompactData_Done [OF conjunct1 [OF a]])
    have s': "sharedAnnotations j = Val (annotations s')"
      by (rule loadCompactData_Done [OF conjunct2 [OF a]])
    have e: "annotations s = annotations s'" using s s' by simp
    from s obtain wire where m: "map_rd sharedAnnotation 0 wire = Val (annotations s)"
      by (auto simp add: sharedAnnotations_def rd_bind_Val)
    have "ann_id (annotations s ! k) = ''shared_'' @ show_nat k" if "k < length (annotations s)" for k
    proof -
      have "k < length wire" using that map_rd_length [OF m] by simp
      from map_rd_nth [OF m this] have "sharedAnnotation k (wire ! k) = Val (annotations s ! k)"
        by simp
      then show ?thesis by (simp add: sharedAnnotation_Val)
    qed
    with e show "annotations s = annotations s'
        \<and> (\<forall>k<length (annotations s). ann_id (annotations s ! k) = ''shared_'' @ show_nat k)"
      by simp
  qed
  have B: "(sharedPlaylistOf clock j = Val (pl, sounds) \<and> sharedPlaylistOf clock' j = Val (pl', sounds') \<longrightarrow>
      pl_items pl = pl_items pl'
      \<and> (\<forall>k<length (pl_items pl). it_id (pl_items pl ! k) = ''item_'' @ show_nat k)
      \<and> pl_id pl = ''shared_'' @ show_nat (clock 0)
      \<and> pl_id pl' = ''shared_'' @ show_nat (clock' 0)
      \<and> length sounds = length sounds'
      \<and> (\<forall>k<length sounds.
            am_id (sounds ! k) = ''ambient_'' @ show_nat (clock (2 + k)) @ ''_'' @ show_nat k
            \<and> am_id (sounds' ! k) = ''ambient_'' @ show_nat (clock' (2 + k)) @ ''_'' @ show_nat k))"
  proof (rule impI)
    assume a: "sharedPlaylistOf clock j = Val (pl, sounds) \<and> sharedPlaylistOf clock' j = Val (pl', sounds')"
    then have p: "sharedPlaylistOf clock j = Val (pl, sounds)"
      and p': "sharedPlaylistOf clock' j = Val (pl', sounds')"
      by simp_all
    have i: "pl_items pl = pl_items pl'"
      using sharedPlaylistOf_Val(1) [OF p] sharedPlaylistOf_Val(1) [OF p'] by simp
    from sharedPlaylistOf_Val(1) [OF p] obtain wire where
      m: "map_rd sharedItem 0 wire = Val (pl_items pl)"
      by (auto simp add: rd_bind_Val)
    have ids: "it_id (pl_items pl ! k) = ''item_'' @ show_nat k" if "k < length (pl_items pl)" for k
    proof -
      have "k < length wire" using that map_rd_length [OF m] by simp
      from map_rd_nth [OF m this] have "sharedItem k (wire ! k) = Val (pl_items pl ! k)"
        by simp
      then show ?thesis by (rule sharedItem_Val)
    qed
    from sharedPlaylistOf_Val(5) [OF p] obtain as where
      as: "rd_bind (getProp j ''as'') ambientList = Val as"
      and ms: "map_rd (sharedAmbientSound clock) 0 as = Val sounds"
      by blast
    from sharedPlaylistOf_Val(5) [OF p'] as have
      ms': "map_rd (sharedAmbientSound clock') 0 as = Val sounds'"
      by auto
    have l: "length sounds = length sounds'"
      using map_rd_length [OF ms] map_rd_length [OF ms'] by simp
    have am: "am_id (sounds ! k) = ''ambient_'' @ show_nat (clock (2 + k)) @ ''_'' @ show_nat k
              \<and> am_id (sounds' ! k) = ''ambient_'' @ show_nat (clock' (2 + k)) @ ''_'' @ show_nat k"
      if "k < length sounds" for k
    proof -
      have k: "k < length as" using that map_rd_length [OF ms] by simp
      from map_rd_nth [OF ms k] have "sharedAmbientSound clock k (as ! k) = Val (sounds ! k)"
        by simp
      moreover from map_rd_nth [OF ms' k] have "sharedAmbientSound clock' k (as ! k) = Val (sounds' ! k)"
        by simp
      ultimately show ?thesis by (simp add: sharedAmbientSound_Val)
    qed
    show "pl_items pl = pl_items pl'
        \<and> (\<forall>k<length (pl_items pl). it_id (pl_items pl ! k) = ''item_'' @ show_nat k)
        \<and> pl_id pl = ''shared_'' @ show_nat (clock 0)
        \<and> pl_id pl' = ''shared_'' @ show_nat (clock' 0)
        \<and> length sounds = length sounds'
        \<and> (\<forall>k<length sounds.
              am_id (sounds ! k) = ''ambient_'' @ show_nat (clock (2 + k)) @ ''_'' @ show_nat k
              \<and> am_id (sounds' ! k) = ''ambient_'' @ show_nat (clock' (2 + k)) @ ''_'' @ show_nat k)"
      using i ids sharedPlaylistOf_Val(2) [OF p] sharedPlaylistOf_Val(2) [OF p'] l am
      by simp
  qed
  have C: "(loadCompactData clock j st = Done s \<and> getProp j ''l'' = Val l \<and> truthy l \<longrightarrow>
      map sv_id (localVideosToLink s) = [''shared_'' @ show_nat (clock 0)])"
  proof (rule impI)
    assume c: "loadCompactData clock j st = Done s \<and> getProp j ''l'' = Val l \<and> truthy l"
    show "map sv_id (localVideosToLink s) = [''shared_'' @ show_nat (clock 0)]"
      by (rule loadCompactData_local_id [OF conjunct1 [OF c] conjunct1 [OF conjunct2 [OF c]]
            conjunct2 [OF conjunct2 [OF c]]])
  qed
  show ?thesis by (intro conjI) (rule A, rule B, rule C)
qed

theorem position_ids_deterministic_witness:
  "ann_id (annotations cupLoaded ! 1) = ''shared_'' @ show_nat 1
   \<and> pl_items (mixShared 1000) = pl_items (mixShared 2000)
   \<and> it_id (pl_items (mixShared 1000) ! 0) = ''item_'' @ show_nat 0
   \<and> pl_id (mixShared 2000) = ''shared_'' @ show_nat 2000
   \<and> am_id (rainShared 1000) = ''ambient_'' @ show_nat 1000 @ ''_'' @ show_nat 0
   \<and> map sv_id (localVideosToLink (matchLoaded 1000)) = [''shared_'' @ show_nat 1000]"
proof -
  note t = position_ids_deterministic [where clock = "\<lambda>k. 1000" and clock' = "\<lambda>k. 2000"
      and j = "compactData cupSession" and st = initialState and st' = initialState
      and s = cupLoaded and s' = cupLoaded]
  note u = position_ids_deterministic [where clock = "\<lambda>k. 1000" and clock' = "\<lambda>k. 2000"
      and j = "compactPlaylist rainLibrary mixPlaylist"
      and pl = "mixShared 1000" and sounds = "[rainShared 1000]"
      and pl' = "mixShared 2000" and sounds' = "[rainShared 2000]"]
  have h: "loadCompactData (\<lambda>k. 1000) (compactData cupSession) initialState = Done cupLoaded
      \<and> loadCompactData (\<lambda>k. 2000) (compactData cupSession) initialState = Done cupLoaded"
    by (simp add: cup_load)
  have g: "sharedPlaylistOf (\<lambda>k. 1000) (compactPlaylist rainLibrary mixPlaylist)
        = Val (mixShared 1000, [rainShared 1000])
      \<and> sharedPlaylistOf (\<lambda>k. 2000) (compactPlaylist rainLibrary mixPlaylist)
        = Val (mixShared 2000, [rainShared 2000])"
    by (simp add: mix_rebuilt)
  have l: "(1::nat) < length (annotations cupLoaded)"
    by (simp add: cupLoaded_def initialState_def)
  have a: "ann_id (annotations cupLoaded ! 1) = ''shared_'' @ show_nat 1"
    by (rule conjunct2 [OF conjunct1 [OF t, rule_format, OF h], rule_format, OF l])
  note v = conjunct1 [OF conjunct2 [OF u], rule_format, OF g]
  note w = position_ids_deterministic [where clock = "\<lambda>k. 1000"
      and j = "compactData matchSession" and st = initialState and s = "matchLoaded 1000"
      and l = "Some (JBool True)"]
  have hl: "loadCompactData (\<lambda>k. 1000) (compactData matchSession) initialState
        = Done (matchLoaded 1000)
      \<and> getProp (compactData matchSession) ''l'' = Val (Some (JBool True))
      \<and> truthy (Some (JBool True))"
    by (intro conjI) (rule match_load, simp add: match_compact, simp)
  have f: "map sv_id (localVideosToLink (matchLoaded 1000)) = [''shared_'' @ show_nat 1000]"
    by (rule conjunct2 [OF conjunct2 [OF w], rule_format, OF hl])
  have b: "pl_items (mixShared 1000) = pl_items (mixShared 2000)"
    by (rule conjunct1 [OF v])
  have l0: "0 < length (pl_items (mixShared 1000))" by (simp add: mixShared_def)
  have c: "it_id (pl_items (mixShared 1000) ! 0) = ''item_'' @ show_nat 0"
    by (rule conjunct1 [OF conjunct2 [OF v], rule_format, OF l0])
  have d: "pl_id (mixShared 2000) = ''shared_'' @ show_nat 2000"
    by (rule conjunct1 [OF conjunct2 [OF conjunct2 [OF conjunct2 [OF v]]]])
  have l1: "0 < length [rainShared 1000]" by simp
  have e: "am_id (rainShared 1000) = ''ambient_'' @ show_nat 1000 @ ''_'' @ show_nat 0"
    using conjunct2 [OF conjunct2 [OF conjunct2 [OF conjunct2 [OF conjunct2 [OF v]]]],
        rule_format, OF l1]
    by simp
  from a b c d e f show ?thesis by simp
qed

text \<open>
  Claim C7 as stated fails: the share link \<open>mixParam\<close> loaded at clock reading 1000 and
  loaded again at clock reading 2000 gives the playlist identifiers \<open>shared_1000\<close> and
  \<open>shared_2000\<close> and the ambient sound identifiers \<open>ambient_1000_0\<close> and \<open>ambient_2000_0\<close>.
\<close>

theorem redecode_ids_counterexample:
  "loadSharedOnMount (tableEnv (compactPlaylist rainLibrary mixPlaylist) mixText mixBytes)
      (\<lambda>k. 1000) 0 None (Some mixParam) initialState
     = Done (startSharedPlaylist 0 (mixShared 1000)
               (loadAmbientSounds [rainShared 1000] initialState))
   \<and> loadSharedOnMount (tableEnv (compactPlaylist rainLibrary mixPlaylist) mixText mixBytes)
      (\<lambda>k. 2000) 0 None (Some mixParam) initialState
     = Done (startSharedPlaylist 0 (mixShared 2000)
               (loadAmbientSounds [rainShared 2000] initialState))
   \<and> activePlaylist (startSharedPlaylist 0 (mixShared 1000)
        (loadAmbientSounds [rainShared 1000] initialState)) = Some (mixShared 1000)
   \<and> activePlaylist (startSharedPlaylist 0 (mixShared 2000)
        (loadAmbientSounds [rainShared 2000] initialState)) = Some (mixShared 2000)
   \<and> pl_id (mixShared 1000) = ''shared_1000''
   \<and> pl_id (mixShared 2000) = ''shared_2000''
   \<and> am_id (rainShared 1000) = ''ambient_1000_0''
   \<and> am_id (rainShared 2000) = ''ambient_2000_0''"
proof -
  have "pl_id (mixShared 1000) = ''shared_1000''" "pl_id (mixShared 2000) = ''shared_2000''"
    "am_id (rainShared 1000) = ''ambient_1000_0''" "am_id (rainShared 2000) = ''ambient_2000_0''"
    by (simp_all add: mixShared_def rainShared_def show_nat_1000 show_nat_2000)
  then show ?thesis
    by (simp add: mix_load mix_started)
qed

text \<open>
  Claim C8. For every byte array that the compression step hands to the binary-to-text
  encoding, the URL-safe remap of the encoder (\<open>+\<close> to \<open>-\<close>, \<open>/\<close> to \<open>_\<close>, trailing \<open>=\<close>
  stripped) followed by the reverse remap of the decoder (\<open>-\<close> to \<open>+\<close>, \<open>_\<close> to \<open>/\<close>, padding
  re-appended up to a multiple of four) gives back exactly the base64 string.
\<close>

theorem remap_reversible:
  "padded (fromUrlSafe (urlSafe (btoa (map fromCharCode compressed))))
     = btoa (map fromCharCode compressed)"
  by (simp only: fromUrlSafe_urlSafe_btoa padded_body)

theorem remap_reversible_witness:
  "urlSafe (btoa (map fromCharCode [62, 62, 63, 63, 126, 126, 126])) = ''Pj4_P35-fg''
   \<and> padded (fromUrlSafe ''Pj4_P35-fg'') = ''Pj4/P35+fg==''
   \<and> btoa (map fromCharCode [62, 62, 63, 63, 126, 126, 126]) = ''Pj4/P35+fg==''"
proof -
  have u: "urlSafe (btoa (map fromCharCode [62, 62, 63, 63, 126, 126, 126])) = ''Pj4_P35-fg''"
    by code_simp
  have b: "btoa (map fromCharCode [62, 62, 63, 63, 126, 126, 126]) = ''Pj4/P35+fg==''"
    by code_simp
  show ?thesis
    using remap_reversible [of "[62, 62, 63, 63, 126, 126, 126]"] u b by simp
qed



text \<open>
  Claim C10. When a playlist share whose payload holds a non-empty array \<open>as\<close> is loaded
  without a caught error, the ambient sounds of the library are exactly the sounds rebuilt
  from that array, whatever the library held before, and the folders, videos and playlists
  of the library are as before.
\<close>

theorem ambient_sounds_replaced:
  assumes "\<not> truthyStr data" and "truthyStr playlistData"
    and "decodePayload env (the playlistData) = Some j"
    and "getProp j ''as'' = Val (Some (JArr (x # xs)))"
    and "loadSharedOnMount env clock rnd data playlistData st = Done st'"
  shows "map_option Val (ambientSounds (appData st')) = Some (map_rd (sharedAmbientSound clock) 0 (x # xs))
       \<and> folders (appData st') = folders (appData st)
       \<and> videos (appData st') = videos (appData st)
       \<and> playlists (appData st') = playlists (appData st)"
proof -
  have "loadCompactPlaylist clock rnd j st = Done st'"
    using assms(1,2,3,5) by (simp add: loadSharedOnMount_def)
  then obtain pl sounds where p: "sharedPlaylistOf clock j = Val (pl, sounds)"
    and s: "st' = startSharedPlaylist rnd pl (loadAmbientSounds sounds st)"
    by (auto simp add: loadCompactPlaylist_def split: rd.splits)
  from sharedPlaylistOf_Val(5) [OF p] assms(4)
  have m: "map_rd (sharedAmbientSound clock) 0 (x # xs) = Val sounds"
    by simp
  then have "length sounds = length (x # xs)" by (rule map_rd_length)
  then obtain y ys where y: "sounds = y # ys" by (cases sounds) simp_all
  show ?thesis
    unfolding s m by (simp add: appData_startSharedPlaylist y)
qed

theorem ambient_sounds_replaced_witness:
  "ambientSounds (appData (startSharedPlaylist 0 (mixShared 0)
       (loadAmbientSounds [rainShared 0] (initialState\<lparr>appData := homeLibrary\<rparr>))))
     = Some [rainShared 0]
   \<and> folders (appData (startSharedPlaylist 0 (mixShared 0)
       (loadAmbientSounds [rainShared 0] (initialState\<lparr>appData := homeLibrary\<rparr>))))
     = folders homeLibrary
   \<and> ambientSounds homeLibrary
     = Some [\<lparr>am_id = ''a0'', am_videoId = ''wind0000000'', am_title = ''Wind''\<rparr>]"
proof -
  let ?env = "tableEnv (compactPlaylist rainLibrary mixPlaylist) mixText mixBytes"
  let ?st = "initialState\<lparr>appData := homeLibrary\<rparr>"
  let ?st' = "startSharedPlaylist 0 (mixShared 0) (loadAmbientSounds [rainShared 0] ?st)"
  have h1: "\<not> truthyStr None" by simp
  have h2: "truthyStr (Some mixParam)" by (simp add: mixParam_def)
  have h3: "decodePayload ?env (the (Some mixParam)) = Some (compactPlaylist rainLibrary mixPlaylist)"
    using mix_decode by simp
  have h4: "getProp (compactPlaylist rainLibrary mixPlaylist) ''as''
      = Val (Some (JArr (JObj [(''v'', JStr ''rain0000000''), (''t'', JStr ''Rain'')] # [])))"
    by (simp add: mix_compact)
  have h5: "loadSharedOnMount ?env (\<lambda>k. 0) 0 None (Some mixParam) ?st = Done ?st'"
    by (rule mix_load)
  have r: "map_rd (sharedAmbientSound (\<lambda>k. 0)) 0 [JObj [(''v'', JStr ''rain0000000''), (''t'', JStr ''Rain'')]]
      = Val [rainShared 0]"
    by (simp add: sharedAmbientSound_def rainShared_def show_nat_0)
  note t = ambient_sounds_replaced [OF h1 h2 h3 h4 h5]
  have a: "ambientSounds (appData ?st') = Some [rainShared 0]"
    by (rule map_option_Val [OF conjunct1 [OF t, unfolded r]])
  have f: "folders (appData ?st') = folders homeLibrary"
  proof -
    have "folders (appData ?st) = folders homeLibrary" by simp
    with conjunct1 [OF conjunct2 [OF t]] show ?thesis by (rule trans)
  qed
  have "ambientSounds homeLibrary
     = Some [\<lparr>am_id = ''a0'', am_videoId = ''wind0000000'', am_title = ''Wind''\<rparr>]"
    by (simp add: homeLibrary_def)
  then show ?thesis using a f by simp
qed

end
